theory Spec2Isabelle
  imports Main "HOL-Library.Sublist"
begin

section \<open>Strings\<close>

text \<open>
  A Python \<open>str\<close> is a sequence of code points. URLs, platform names and file lines
  are modelled as \<^typ>\<open>string\<close>, an 8-bit character standing for the code point of
  the same number: the model covers the texts whose code points are all below 256.
  \<open>is_valid_url\<close> alone is modelled on lists of code points of any size, because
  its pattern takes some code points above 255 for letters.
\<close>

definition ascii_uppercase :: string where
  "ascii_uppercase = ''ABCDEFGHIJKLMNOPQRSTUVWXYZ''"

definition ascii_lowercase :: string where
  "ascii_lowercase = ''abcdefghijklmnopqrstuvwxyz''"

definition digits :: string where
  "digits = ''0123456789''"

text \<open>
  The capital letters above 127 and their small forms: the code points 0xC0 to 0xDE
  without the multiplication sign 0xD7, and each of them plus 0x20.
\<close>

definition latin1_uppercase :: string where
  "latin1_uppercase =
     [CHR 0xC0, CHR 0xC1, CHR 0xC2, CHR 0xC3, CHR 0xC4, CHR 0xC5, CHR 0xC6, CHR 0xC7,
      CHR 0xC8, CHR 0xC9, CHR 0xCA, CHR 0xCB, CHR 0xCC, CHR 0xCD, CHR 0xCE, CHR 0xCF,
      CHR 0xD0, CHR 0xD1, CHR 0xD2, CHR 0xD3, CHR 0xD4, CHR 0xD5, CHR 0xD6, CHR 0xD8,
      CHR 0xD9, CHR 0xDA, CHR 0xDB, CHR 0xDC, CHR 0xDD, CHR 0xDE]"

definition latin1_lowercase :: string where
  "latin1_lowercase =
     [CHR 0xE0, CHR 0xE1, CHR 0xE2, CHR 0xE3, CHR 0xE4, CHR 0xE5, CHR 0xE6, CHR 0xE7,
      CHR 0xE8, CHR 0xE9, CHR 0xEA, CHR 0xEB, CHR 0xEC, CHR 0xED, CHR 0xEE, CHR 0xEF,
      CHR 0xF0, CHR 0xF1, CHR 0xF2, CHR 0xF3, CHR 0xF4, CHR 0xF5, CHR 0xF6, CHR 0xF8,
      CHR 0xF9, CHR 0xFA, CHR 0xFB, CHR 0xFC, CHR 0xFD, CHR 0xFE]"

text \<open>\<open>str.lower()\<close>, one character at a time.\<close>

definition lower_char :: "char \<Rightarrow> char" where
  "lower_char c =
     (case map_of (zip (ascii_uppercase @ latin1_uppercase)
                       (ascii_lowercase @ latin1_lowercase)) c of
        Some d \<Rightarrow> d
      | None \<Rightarrow> c)"

definition py_lower :: "string \<Rightarrow> string" where
  "py_lower s = map lower_char s"

text \<open>
  The capital of a first character, as \<open>str.capitalize()\<close> forms it. The sharp s
  0xDF becomes \<open>Ss\<close>. The capitals of the micro sign 0xB5 and of 0xFF are not 8-bit
  characters; those two are left as they are, which no platform name of the program
  meets.
\<close>

definition upper_char :: "char \<Rightarrow> string" where
  "upper_char c =
     (if c = CHR 0xDF then ''Ss''
      else (case map_of (zip (ascii_lowercase @ latin1_lowercase)
                             (ascii_uppercase @ latin1_uppercase)) c of
              Some d \<Rightarrow> [d]
            | None \<Rightarrow> [c]))"

text \<open>\<open>str.capitalize()\<close>: first character as a capital, the rest lower case.\<close>

fun capitalize :: "string \<Rightarrow> string" where
  "capitalize [] = []"
| "capitalize (c # cs) = upper_char c @ py_lower cs"

text \<open>\<open>sub in s\<close> on strings: \<open>sub\<close> occurs in \<open>s\<close> as a contiguous substring.\<close>

fun contains :: "string \<Rightarrow> string \<Rightarrow> bool" where
  "contains sub [] = (sub = [])"
| "contains sub (c # cs) = (prefix sub (c # cs) \<or> contains sub cs)"

text \<open>
  White space as \<open>str.strip()\<close> and \<open>str.isspace()\<close> see it below 256: the
  characters 9 to 13, 28 to 32, 0x85 and 0xA0.
\<close>

definition whitespace :: string where
  "whitespace = [CHR 0x09, CHR 0x0A, CHR 0x0B, CHR 0x0C, CHR 0x0D,
                 CHR 0x1C, CHR 0x1D, CHR 0x1E, CHR 0x1F, CHR '' '',
                 CHR 0x85, CHR 0xA0]"

definition is_space :: "char \<Rightarrow> bool" where
  "is_space c = (c \<in> set whitespace)"

definition strip :: "string \<Rightarrow> string" where
  "strip s = rev (dropWhile is_space (rev (dropWhile is_space s)))"

text \<open>\<open>s.find(ch)\<close> for a single character: the index of its first occurrence.\<close>

fun find_char :: "char \<Rightarrow> string \<Rightarrow> nat option" where
  "find_char ch [] = None"
| "find_char ch (c # cs) =
     (if c = ch then Some 0 else map_option Suc (find_char ch cs))"

text \<open>
  \<open>s.split(ch, 1)\<close> when \<open>ch\<close> occurs in \<open>s\<close>, and \<open>(s, '''')\<close> otherwise: the
  text before the first \<open>ch\<close> and the text after it.
\<close>

definition split_first :: "char \<Rightarrow> string \<Rightarrow> string \<times> string" where
  "split_first ch s = (takeWhile (\<lambda>c. c \<noteq> ch) s, drop 1 (dropWhile (\<lambda>c. c \<noteq> ch) s))"

section \<open>Regular expressions\<close>

text \<open>
  The patterns of the program have no back-references and no look-around, so Python's
  backtracking matcher finds a match exactly when one exists. A pattern is modelled as
  a function from the input at the current position to the list of all remainders that
  a match of the pattern can leave, in the order in which the backtracking matcher
  tries them (greedy repetitions first try the longest match). The characters are of
  any type: 8-bit characters, or code points.
\<close>

type_synonym 'c matcher = "'c list \<Rightarrow> 'c list list"

text \<open>A literal, compared exactly.\<close>

definition lit :: "'c list \<Rightarrow> 'c matcher" where
  "lit w s = (if prefix w s then [drop (length w) s] else [])"

text \<open>One character of a class.\<close>

definition cls :: "('c \<Rightarrow> bool) \<Rightarrow> 'c matcher" where
  "cls P s = (case s of [] \<Rightarrow> [] | c # r \<Rightarrow> if P c then [r] else [])"

text \<open>Concatenation, alternation \<open>p|q\<close> and the optional \<open>p?\<close>.\<close>

definition seq :: "'c matcher \<Rightarrow> 'c matcher \<Rightarrow> 'c matcher" where
  "seq p q s = concat (map q (p s))"

definition alt :: "'c matcher \<Rightarrow> 'c matcher \<Rightarrow> 'c matcher" where
  "alt p q s = p s @ q s"

definition opt :: "'c matcher \<Rightarrow> 'c matcher" where
  "opt p s = p s @ [s]"

text \<open>The bounded repetitions \<open>p{0,n}\<close>, \<open>p{m}\<close> and \<open>p{m,n}\<close>.\<close>

fun rep_upto :: "nat \<Rightarrow> 'c matcher \<Rightarrow> 'c matcher" where
  "rep_upto 0 p s = [s]"
| "rep_upto (Suc n) p s = concat (map (rep_upto n p) (p s)) @ [s]"

fun rep_exact :: "nat \<Rightarrow> 'c matcher \<Rightarrow> 'c matcher" where
  "rep_exact 0 p s = [s]"
| "rep_exact (Suc n) p s = concat (map (rep_exact n p) (p s))"

definition rep :: "nat \<Rightarrow> nat \<Rightarrow> 'c matcher \<Rightarrow> 'c matcher" where
  "rep m n p = seq (rep_exact m p) (rep_upto (n - m) p)"

text \<open>
  The unbounded repetitions \<open>p*\<close> and \<open>p+\<close>. An iteration that consumes nothing is
  not repeated, so the length of the input bounds the number of iterations.
\<close>

fun star_upto :: "nat \<Rightarrow> 'c matcher \<Rightarrow> 'c matcher" where
  "star_upto 0 p s = [s]"
| "star_upto (Suc k) p s =
     concat (map (star_upto k p) (filter (\<lambda>r. length r < length s) (p s))) @ [s]"

definition star :: "'c matcher \<Rightarrow> 'c matcher" where
  "star p s = star_upto (length s) p s"

definition plus :: "'c matcher \<Rightarrow> 'c matcher" where
  "plus p = seq p (star p)"

text \<open>\<open>re.match\<close> tries the pattern at the start of the string only.\<close>

definition re_match :: "'c matcher \<Rightarrow> 'c list \<Rightarrow> bool" where
  "re_match p s = (p s \<noteq> [])"

text \<open>\<open>re.search\<close> tries every position from left to right, the end included.\<close>

fun re_search :: "'c matcher \<Rightarrow> 'c list \<Rightarrow> bool" where
  "re_search p [] = (p [] \<noteq> [])"
| "re_search p (c # cs) = (p (c # cs) \<noteq> [] \<or> re_search p cs)"

text \<open>
  A search for a pattern of the shape \<open>pre([class]+)\<close>, returning the text of that
  last group at the leftmost match: \<open>pre\<close> is tried at each position, and at the first
  position where it can be followed by at least one character of the class, the group
  is the longest run of such characters.
\<close>

definition capture_at :: "'c matcher \<Rightarrow> ('c \<Rightarrow> bool) \<Rightarrow> 'c list \<Rightarrow> 'c list option" where
  "capture_at pre P s =
     (case filter (\<lambda>r. takeWhile P r \<noteq> []) (pre s) of
        [] \<Rightarrow> None
      | r # _ \<Rightarrow> Some (takeWhile P r))"

fun search_group :: "'c matcher \<Rightarrow> ('c \<Rightarrow> bool) \<Rightarrow> 'c list \<Rightarrow> 'c list option" where
  "search_group pre P [] = capture_at pre P []"
| "search_group pre P (c # cs) =
     (case capture_at pre P (c # cs) of
        Some g \<Rightarrow> Some g
      | None \<Rightarrow> search_group pre P cs)"

text \<open>
  The character classes of the patterns that are matched on 8-bit strings, and of
  \<open>urlparse\<close>. Below 256 the class \<open>\d\<close> holds the ten ASCII digits only.
\<close>

definition is_digit :: "char \<Rightarrow> bool" where
  "is_digit c = (c \<in> set digits)"

definition is_alpha :: "char \<Rightarrow> bool" where
  "is_alpha c = (c \<in> set (ascii_uppercase @ ascii_lowercase))"

definition is_alnum :: "char \<Rightarrow> bool" where
  "is_alnum c = (is_alpha c \<or> is_digit c)"

definition is_id_char :: "char \<Rightarrow> bool" where
  "is_id_char c = (is_alnum c \<or> c = CHR ''_'' \<or> c = CHR ''-'')"

section \<open>Code points\<close>

text \<open>
  A text as a list of code points, which are the integers from 0 to 0x10FFFF, and the
  code points of an 8-bit string.
\<close>

type_synonym ustring = "int list"

definition code_points :: "string \<Rightarrow> ustring" where
  "code_points s = map of_char s"

text \<open>
  Matching under \<open>re.IGNORECASE\<close>, as the \<open>re\<close> module of CPython 3.11 compiles it
  for a \<open>str\<close> pattern. A character of the text is compared through its lower-case
  form; \<open>sre_lower\<close> gives that form for the code points whose lower-case form is an
  ASCII letter (the ASCII capitals, U+0130 and the Kelvin sign U+212A) and stands for
  "some other code point" elsewhere, which no pattern of the program tells apart. On top
  of that, three small letters have one more equivalent each: dotless i U+0131 for
  \<open>i\<close>, long s U+017F for \<open>s\<close>, the Kelvin sign for \<open>k\<close>.
\<close>

definition sre_lower :: "int \<Rightarrow> int" where
  "sre_lower c =
     (if 0x41 \<le> c \<and> c \<le> 0x5A then c + 0x20
      else if c = 0x130 then 0x69
      else if c = 0x212A then 0x6B
      else c)"

definition ignorecase_fixes :: "int \<Rightarrow> int list" where
  "ignorecase_fixes lo =
     (if lo = 0x69 then [0x131]
      else if lo = 0x73 then [0x17F]
      else if lo = 0x6B then [0x212A]
      else [])"

text \<open>A literal character \<open>p\<close> of a pattern against a character \<open>c\<close> of the text.\<close>

definition char_matches_i :: "int \<Rightarrow> int \<Rightarrow> bool" where
  "char_matches_i p c =
     (sre_lower c \<in> set (sre_lower p # ignorecase_fixes (sre_lower p)))"

text \<open>The text begins with the literal \<open>w\<close>, compared under \<open>re.IGNORECASE\<close>.\<close>

definition begins_ignoring_case :: "ustring \<Rightarrow> ustring \<Rightarrow> bool" where
  "begins_ignoring_case w s =
     (length w \<le> length s \<and> list_all2 char_matches_i w (take (length w) s))"

text \<open>A literal under \<open>re.IGNORECASE\<close>.\<close>

definition lit_i :: "ustring \<Rightarrow> int matcher" where
  "lit_i w s = (if begins_ignoring_case w s then [drop (length w) s] else [])"

text \<open>
  The classes \<open>[A-Z]\<close>, \<open>[A-Z0-9]\<close> and \<open>[A-Z0-9-]\<close> under \<open>re.IGNORECASE\<close>: the
  letters of both cases and the four code points U+0130, U+0131, U+017F and U+212A.
  The range \<open>0-9\<close> is the ten ASCII digits.
\<close>

definition letter_i :: "int \<Rightarrow> bool" where
  "letter_i c =
     ((0x61 \<le> sre_lower c \<and> sre_lower c \<le> 0x7A) \<or> sre_lower c \<in> set [0x131, 0x17F, 0x212A])"

definition ascii_digit :: "int \<Rightarrow> bool" where
  "ascii_digit c = (0x30 \<le> c \<and> c \<le> 0x39)"

definition letter_digit_i :: "int \<Rightarrow> bool" where
  "letter_digit_i c = (letter_i c \<or> ascii_digit c)"

definition letter_digit_dash_i :: "int \<Rightarrow> bool" where
  "letter_digit_dash_i c = (letter_digit_i c \<or> c = 0x2D)"

text \<open>
  Membership in a table of ranges, and the two classes that the pattern takes from
  the Unicode database (version 14.0 in CPython 3.11): \<open>\d\<close>, the decimal digits of
  every script, and \<open>\s\<close>, the white space; \<open>\S\<close> is every other code point.
\<close>

definition in_ranges :: "(int \<times> int) list \<Rightarrow> int \<Rightarrow> bool" where
  "in_ranges rs c = (\<exists>(lo, hi) \<in> set rs. lo \<le> c \<and> c \<le> hi)"

definition decimal_ranges :: "(int \<times> int) list" where
  "decimal_ranges =
     [(48, 57), (1632, 1641), (1776, 1785), (1984, 1993), (2406, 2415), (2534, 2543),
      (2662, 2671), (2790, 2799), (2918, 2927), (3046, 3055), (3174, 3183),
      (3302, 3311), (3430, 3439), (3558, 3567), (3664, 3673), (3792, 3801),
      (3872, 3881), (4160, 4169), (4240, 4249), (6112, 6121), (6160, 6169),
      (6470, 6479), (6608, 6617), (6784, 6793), (6800, 6809), (6992, 7001),
      (7088, 7097), (7232, 7241), (7248, 7257), (42528, 42537), (43216, 43225),
      (43264, 43273), (43472, 43481), (43504, 43513), (43600, 43609), (44016, 44025),
      (65296, 65305), (66720, 66729), (68912, 68921), (69734, 69743), (69872, 69881),
      (69942, 69951), (70096, 70105), (70384, 70393), (70736, 70745), (70864, 70873),
      (71248, 71257), (71360, 71369), (71472, 71481), (71904, 71913), (72016, 72025),
      (72784, 72793), (73040, 73049), (73120, 73129), (92768, 92777), (92864, 92873),
      (93008, 93017), (120782, 120831), (123200, 123209), (123632, 123641),
      (125264, 125273), (130032, 130041)]"

definition space_ranges :: "(int \<times> int) list" where
  "space_ranges =
     [(9, 13), (28, 32), (133, 133), (160, 160), (5760, 5760), (8192, 8202),
      (8232, 8233), (8239, 8239), (8287, 8287), (12288, 12288)]"

definition unicode_decimal :: "int \<Rightarrow> bool" where
  "unicode_decimal c = in_ranges decimal_ranges c"

definition unicode_non_space :: "int \<Rightarrow> bool" where
  "unicode_non_space c = (\<not> in_ranges space_ranges c)"

text \<open>
  \<open>$\<close> without \<open>re.MULTILINE\<close>: the end of the string, or the position just before a
  newline that ends the string.
\<close>

definition eos :: "int matcher" where
  "eos s = (if s = [] \<or> s = [0x0A] then [s] else [])"

section \<open>URL validation\<close>

text \<open>
  \<open>is_valid_url\<close>: the pattern, piece by piece as the source writes it, compiled with
  \<open>re.IGNORECASE\<close>. The characters \<open>:\<close>, \<open>/\<close>, \<open>.\<close> and \<open>?\<close> have no case and are
  compared exactly.
\<close>

definition scheme_pat :: "int matcher" where
  "scheme_pat =
     seq (lit_i (code_points ''http''))
       (seq (opt (lit_i (code_points ''s''))) (lit (code_points ''://'')))"

definition label_pat :: "int matcher" where
  "label_pat =
     seq (cls letter_digit_i)
       (seq (opt (seq (rep 0 61 (cls letter_digit_dash_i)) (cls letter_digit_i)))
            (lit (code_points ''.'')))"

definition domain_pat :: "int matcher" where
  "domain_pat =
     seq (plus label_pat) (seq (rep 2 6 (cls letter_i)) (opt (lit (code_points ''.''))))"

definition ip_pat :: "int matcher" where
  "ip_pat =
     seq (rep 1 3 (cls unicode_decimal)) (seq (lit (code_points ''.''))
    (seq (rep 1 3 (cls unicode_decimal)) (seq (lit (code_points ''.''))
    (seq (rep 1 3 (cls unicode_decimal)) (seq (lit (code_points ''.''))
         (rep 1 3 (cls unicode_decimal)))))))"

definition host_pat :: "int matcher" where
  "host_pat = alt domain_pat (alt (lit_i (code_points ''localhost'')) ip_pat)"

definition port_pat :: "int matcher" where
  "port_pat = opt (seq (lit (code_points '':'')) (plus (cls unicode_decimal)))"

definition tail_pat :: "int matcher" where
  "tail_pat =
     alt (opt (lit (code_points ''/'')))
         (seq (cls (\<lambda>c. c = 0x2F \<or> c = 0x3F)) (plus (cls unicode_non_space)))"

definition url_pattern :: "int matcher" where
  "url_pattern = seq scheme_pat (seq host_pat (seq port_pat (seq tail_pat eos)))"

definition is_valid_url :: "ustring \<Rightarrow> bool" where
  "is_valid_url url = re_match url_pattern url"

section \<open>Platform detection\<close>

text \<open>
  \<open>domain_patterns\<close> is a dict literal; Python iterates it in insertion order, so it
  is an association list here. Platforms are strings, as in the source.
\<close>

definition domain_patterns :: "(string \<times> char matcher) list" where
  "domain_patterns =
     [(''youtube'', alt (lit ''youtube.com'') (lit ''youtu.be'')),
      (''instagram'', lit ''instagram.com''),
      (''tiktok'', lit ''tiktok.com''),
      (''twitter'', alt (lit ''twitter.com'') (lit ''x.com'')),
      (''facebook'', lit ''facebook.com''),
      (''reddit'', lit ''reddit.com''),
      (''twitch'', lit ''twitch.tv'')]"

text \<open>The loop of \<open>detect_platform\<close>: the first pattern found in the text wins.\<close>

fun first_match :: "(string \<times> char matcher) list \<Rightarrow> string \<Rightarrow> string option" where
  "first_match [] s = None"
| "first_match ((platform, pattern) # ps) s =
     (if re_search pattern s then Some platform else first_match ps s)"

definition detect_platform :: "string \<Rightarrow> string option" where
  "detect_platform url = first_match domain_patterns (py_lower url)"

text \<open>The literals that the patterns of \<open>domain_patterns\<close> search for, in order.\<close>

definition pattern_literals :: "string list" where
  "pattern_literals =
     [''youtube.com'', ''youtu.be'', ''instagram.com'', ''tiktok.com'',
      ''twitter.com'', ''x.com'', ''facebook.com'', ''reddit.com'', ''twitch.tv'']"

section \<open>URL parsing\<close>

text \<open>
  \<open>urllib.parse.urlparse\<close>, \<open>parse_qs\<close> and \<open>unquote_plus\<close> of the standard
  library (CPython 3.11), for \<open>str\<close> arguments and the default arguments the program
  uses. Two parts of the library are parameters: the check of a bracketed (IPv6) host,
  and the decoding of percent escapes in a text that has some.
\<close>

record pylib =
  check_bracketed_host :: "string \<Rightarrow> bool"
  percent_decode :: "string \<Rightarrow> string"

text \<open>
  The exceptions the program meets, by the class that decides which handler catches
  them: \<open>Exception\<close> stands for any other exception derived from Python's
  \<open>Exception\<close>; \<open>BaseException\<close> for one that is not derived from it
  (\<open>KeyboardInterrupt\<close>, \<open>SystemExit\<close>, \<open>GeneratorExit\<close>).
\<close>

datatype exn =
    FileNotFoundError
  | ValueError
  | InstaloaderException string
  | Exception string
  | BaseException string

text \<open>\<open>isinstance(e, Exception)\<close>: what an \<open>except Exception\<close> clause catches.\<close>

fun is_Exception :: "exn \<Rightarrow> bool" where
  "is_Exception (BaseException m) = False"
| "is_Exception e = True"

record parse_result =
  url_scheme :: string
  url_netloc :: string
  url_path :: string
  url_params :: string
  url_query :: string
  url_fragment :: string

definition scheme_chars :: string where
  "scheme_chars = ascii_lowercase @ ascii_uppercase @ digits @ ''+-.''"

definition c0_control_or_space :: string where
  "c0_control_or_space =
     [CHR 0x00, CHR 0x01, CHR 0x02, CHR 0x03, CHR 0x04, CHR 0x05, CHR 0x06, CHR 0x07,
      CHR 0x08, CHR 0x09, CHR 0x0A, CHR 0x0B, CHR 0x0C, CHR 0x0D, CHR 0x0E, CHR 0x0F,
      CHR 0x10, CHR 0x11, CHR 0x12, CHR 0x13, CHR 0x14, CHR 0x15, CHR 0x16, CHR 0x17,
      CHR 0x18, CHR 0x19, CHR 0x1A, CHR 0x1B, CHR 0x1C, CHR 0x1D, CHR 0x1E, CHR 0x1F,
      CHR '' '']"

definition unsafe_url_bytes_to_remove :: string where
  "unsafe_url_bytes_to_remove = [CHR 0x09, CHR 0x0D, CHR 0x0A]"

definition uses_params :: "string list" where
  "uses_params = ['''', ''ftp'', ''hdl'', ''prospero'', ''http'', ''imap'',
                  ''https'', ''shttp'', ''rtsp'', ''rtsps'', ''rtspu'', ''sip'',
                  ''sips'', ''mms'', ''sftp'', ''tel'']"

text \<open>
  The scheme: the text before the first colon, when the colon is not first, the first
  character is a letter and all the characters are scheme characters.
\<close>

definition split_scheme :: "string \<Rightarrow> string \<times> string" where
  "split_scheme u =
     (case find_char (CHR '':'') u of
        None \<Rightarrow> ('''', u)
      | Some i \<Rightarrow>
          if 0 < i \<and> is_alpha (hd u) \<and> (\<forall>c \<in> set (take i u). c \<in> set scheme_chars)
          then (py_lower (take i u), drop (Suc i) u)
          else ('''', u))"

text \<open>\<open>_splitnetloc(url, 2)\<close>: the network location ends at the first of \<open>/?#\<close>.\<close>

definition splitnetloc :: "string \<Rightarrow> string \<times> string" where
  "splitnetloc u =
     (let r = drop 2 u; is_delim = (\<lambda>c. c \<in> set ''/?#'')
      in (takeWhile (\<lambda>c. \<not> is_delim c) r, dropWhile (\<lambda>c. \<not> is_delim c) r))"

text \<open>\<open>netloc.partition('[')[2].partition(']')[0]\<close>.\<close>

definition bracketed_host :: "string \<Rightarrow> string" where
  "bracketed_host nl =
     takeWhile (\<lambda>c. c \<noteq> CHR '']'') (drop 1 (dropWhile (\<lambda>c. c \<noteq> CHR ''['') nl))"

definition urlsplit :: "pylib \<Rightarrow> string \<Rightarrow> exn + parse_result" where
  "urlsplit lib url0 =
     (let u1 = dropWhile (\<lambda>c. c \<in> set c0_control_or_space) url0;
          u2 = filter (\<lambda>c. c \<notin> set unsafe_url_bytes_to_remove) u1;
          (sch, u3) = split_scheme u2;
          (nl, u4) = (if take 2 u3 = ''//'' then splitnetloc u3 else ('''', u3));
          has_open = (CHR ''['' \<in> set nl);
          has_close = (CHR '']'' \<in> set nl)
      in if (has_open \<and> \<not> has_close) \<or> (has_close \<and> \<not> has_open) then Inl ValueError
         else if has_open \<and> has_close \<and> \<not> check_bracketed_host lib (bracketed_host nl)
         then Inl ValueError
         else
           let (u5, frag) = split_first (CHR ''#'') u4;
               (u6, qry) = split_first (CHR ''?'') u5
           in Inr \<lparr>url_scheme = sch, url_netloc = nl, url_path = u6, url_params = '''',
                    url_query = qry, url_fragment = frag\<rparr>)"

text \<open>
  \<open>_splitparams\<close>, called when the path has a semicolon: the parameters start at the
  first semicolon after the last slash.
\<close>

definition splitparams :: "string \<Rightarrow> string \<times> string" where
  "splitparams u =
     (if CHR ''/'' \<in> set u then
        let seg = rev (takeWhile (\<lambda>c. c \<noteq> CHR ''/'') (rev u));
            front = take (length u - length seg) u
        in if CHR '';'' \<in> set seg
           then (front @ fst (split_first (CHR '';'') seg), snd (split_first (CHR '';'') seg))
           else (u, '''')
      else split_first (CHR '';'') u)"

definition urlparse :: "pylib \<Rightarrow> string \<Rightarrow> exn + parse_result" where
  "urlparse lib url =
     (case urlsplit lib url of
        Inl e \<Rightarrow> Inl e
      | Inr r \<Rightarrow>
          if url_scheme r \<in> set uses_params \<and> CHR '';'' \<in> set (url_path r)
          then Inr (r\<lparr>url_path := fst (splitparams (url_path r)),
                      url_params := snd (splitparams (url_path r))\<rparr>)
          else Inr r)"

text \<open>\<open>s.split(sep)\<close> for a one-character separator.\<close>

fun split_on :: "char \<Rightarrow> string \<Rightarrow> string list" where
  "split_on sep [] = [[]]"
| "split_on sep (c # cs) =
     (if c = sep then [] # split_on sep cs
      else (case split_on sep cs of
              w # ws \<Rightarrow> (c # w) # ws
            | [] \<Rightarrow> [[c]]))"

text \<open>
  \<open>unquote_plus\<close>: plus signs become spaces, and a text without a percent sign is
  returned as it is.
\<close>

definition unquote_plus :: "pylib \<Rightarrow> string \<Rightarrow> string" where
  "unquote_plus lib s =
     (let t = map (\<lambda>c. if c = CHR ''+'' then CHR '' '' else c) s
      in if CHR ''%'' \<notin> set t then t else percent_decode lib t)"

text \<open>
  \<open>parse_qsl\<close> with the defaults (separator \<open>&\<close>, blank values dropped, no strict
  parsing): the pairs in the order of the query.
\<close>

definition parse_qsl :: "pylib \<Rightarrow> string \<Rightarrow> (string \<times> string) list" where
  "parse_qsl lib qs =
     (if qs = [] then []
      else concat (map (\<lambda>name_value.
             if name_value \<noteq> [] then
               (let (name, val) = split_first (CHR ''='') name_value
                in if val \<noteq> [] then [(unquote_plus lib name, unquote_plus lib val)] else [])
             else [])
           (split_on (CHR ''&'') qs)))"

text \<open>
  \<open>parse_qs\<close>: the dict from a name to the list of its values, in the order of the
  query; a name that does not occur has no entry, which is the empty list here.
\<close>

definition parse_qs :: "pylib \<Rightarrow> string \<Rightarrow> string \<Rightarrow> string list" where
  "parse_qs lib qs name = map snd (filter (\<lambda>(n, v). n = name) (parse_qsl lib qs))"

section \<open>Native identifiers\<close>

text \<open>
  \<open>extract_video_id\<close>. The whole body is inside \<open>try ... except Exception\<close>, and the
  function returns \<open>None\<close> after the handler, so a \<open>ValueError\<close> of \<open>urlparse\<close> gives
  \<open>None\<close> for every platform. \<open>query.get('v', [None])[0]\<close> is the first value of
  \<open>v\<close>, or \<open>None\<close>.
\<close>

definition instagram_pre :: "char matcher" where
  "instagram_pre =
     seq (lit ''/'') (seq (alt (lit ''p'') (alt (lit ''reel'') (lit ''tv''))) (lit ''/''))"

definition extract_video_id :: "pylib \<Rightarrow> string \<Rightarrow> string \<Rightarrow> string option" where
  "extract_video_id lib url platform =
     (case urlparse lib url of
        Inl e \<Rightarrow> None
      | Inr parsed \<Rightarrow>
          if platform = ''youtube'' then
            (if contains ''youtu.be'' url then Some (drop 1 (url_path parsed))
             else if contains ''youtube.com'' url then
               (case parse_qs lib (url_query parsed) ''v'' of
                  [] \<Rightarrow> None
                | v # _ \<Rightarrow> Some v)
             else None)
          else if platform = ''instagram'' then search_group instagram_pre is_id_char url
          else if platform = ''tiktok'' then search_group (lit ''/video/'') is_digit url
          else if platform = ''twitter'' then search_group (lit ''/status/'') is_digit url
          else None)"

section \<open>Canonical URLs\<close>

text \<open>
  Well-formed identifiers, and the canonical URL that carries an identifier on each
  platform that \<open>extract_video_id\<close> handles: a YouTube or Instagram identifier is a
  non-empty text of letters, digits, \<open>_\<close> and \<open>-\<close>; a TikTok or Twitter identifier is
  a non-empty text of digits.
\<close>

definition well_formed_id :: "string \<Rightarrow> bool" where
  "well_formed_id s = (s \<noteq> [] \<and> (\<forall>c \<in> set s. is_id_char c))"

definition well_formed_number :: "string \<Rightarrow> bool" where
  "well_formed_number s = (s \<noteq> [] \<and> (\<forall>c \<in> set s. is_digit c))"

definition youtube_short_url :: "string \<Rightarrow> string" where
  "youtube_short_url vid = ''https://youtu.be/'' @ vid"

definition youtube_watch_url :: "string \<Rightarrow> string" where
  "youtube_watch_url vid = ''https://www.youtube.com/watch?v='' @ vid"

definition instagram_post_url :: "string \<Rightarrow> string" where
  "instagram_post_url code = ''https://www.instagram.com/p/'' @ code @ ''/''"

definition tiktok_video_url :: "string \<Rightarrow> string" where
  "tiktok_video_url n = ''https://www.tiktok.com/@user/video/'' @ n"

definition twitter_status_url :: "string \<Rightarrow> string" where
  "twitter_status_url n = ''https://twitter.com/user/status/'' @ n"

section \<open>Configuration\<close>

definition REQUEST_DELAY :: nat where
  "REQUEST_DELAY = 1"

definition DEFAULT_QUALITY :: string where
  "DEFAULT_QUALITY = ''best''"

section \<open>History\<close>

text \<open>
  JSON values, as \<open>json.load\<close> returns them and \<open>json.dump\<close> writes them: \<open>None\<close>,
  a boolean, a number (by its text), a string, a list, or a dict with string keys.
\<close>

datatype json =
    JNull
  | JBool bool
  | JNumber string
  | JString string
  | JArray "json list"
  | JObject "(string \<times> json) list"

text \<open>An entry of the history is the dict that \<open>add_entry\<close> builds.\<close>

type_synonym entry = json

text \<open>
  The history file on disk: absent, or present with what opening and reading it
  gives, its text or an exception. \<open>json.load\<close> and \<open>json.dump\<close> are parameters; a
  text that is not valid JSON makes \<open>json_load\<close> raise, any other text gives a JSON
  value, a list or not. Writing is a parameter too: it gives the file as it is
  afterwards and the exception raised, if any. So is the failure of the test
  \<open>history_file.exists()\<close>: \<open>exists_error\<close> is the exception that the test raises, if
  any (on CPython 3.11 \<open>Path.exists\<close> lets every \<open>OSError\<close> pass that does not say
  that the file is missing, as \<open>PermissionError\<close> for a folder that cannot be
  searched).
\<close>

type_synonym hist_file = "(exn + string) option"

record json_io =
  json_load :: "string \<Rightarrow> exn + json"
  json_dump :: "entry list \<Rightarrow> string"
  write_file :: "hist_file \<Rightarrow> string \<Rightarrow> hist_file \<times> exn option"
  exists_error :: "hist_file \<Rightarrow> exn option"

text \<open>
  The object \<open>DownloadHistory\<close>: the value of its attribute \<open>history\<close>, and the
  file it works on. \<open>add_entry\<close> and \<open>save_history\<close> work on an object whose
  \<open>history\<close> is a list.
\<close>

record 'h download_history =
  history :: "'h"
  history_file :: hist_file

text \<open>
  \<open>load_history\<close>: the result is \<open>Inr\<close> of the value returned, or \<open>Inl\<close> of an
  exception that leaves the method. The test \<open>self.history_file.exists()\<close> stands
  before the \<open>try\<close>, so what it raises leaves the method. The handler of the
  \<open>try\<close> is a bare \<open>except:\<close>, which catches every exception.
\<close>

definition load_history :: "json_io \<Rightarrow> hist_file \<Rightarrow> exn + json" where
  "load_history io file =
     (case exists_error io file of
        Some e \<Rightarrow> Inl e
      | None \<Rightarrow>
          (case file of
             None \<Rightarrow> Inr (JArray [])
           | Some opened \<Rightarrow>
               (case (case opened of Inl e \<Rightarrow> Inl e | Inr text \<Rightarrow> json_load io text) of
                  Inl e \<Rightarrow> Inr (JArray [])
                | Inr loaded \<Rightarrow> Inr loaded)))"

text \<open>\<open>DownloadHistory.__init__\<close>.\<close>

definition new_history :: "json_io \<Rightarrow> hist_file \<Rightarrow> exn + json download_history" where
  "new_history io file =
     (case load_history io file of
        Inl e \<Rightarrow> Inl e
      | Inr loaded \<Rightarrow> Inr \<lparr>history = loaded, history_file = file\<rparr>)"

text \<open>
  \<open>save_history\<close>: an exception derived from \<open>Exception\<close> is logged and dropped, any
  other leaves the method. The second component is the exception that leaves it.
\<close>

definition save_history ::
  "json_io \<Rightarrow> entry list download_history \<Rightarrow> entry list download_history \<times> exn option" where
  "save_history io h =
     (let (file', raised) = write_file io (history_file h) (json_dump io (history h))
      in (h\<lparr>history_file := file'\<rparr>,
          case raised of
            None \<Rightarrow> None
          | Some e \<Rightarrow> if is_Exception e then None else Some e))"

text \<open>\<open>xs[-n:]\<close>: the last \<open>n\<close> elements, all of them when there are fewer.\<close>

definition last_n :: "nat \<Rightarrow> 'a list \<Rightarrow> 'a list" where
  "last_n n xs = drop (length xs - n) xs"

text \<open>\<open>add_entry\<close>; \<open>now\<close> is \<open>datetime.now().isoformat()\<close>.\<close>

definition make_entry :: "string \<Rightarrow> string \<Rightarrow> string \<Rightarrow> bool \<Rightarrow> string option \<Rightarrow> entry" where
  "make_entry now url platform success filename =
     JObject [(''timestamp'', JString now), (''url'', JString url),
              (''platform'', JString platform), (''success'', JBool success),
              (''filename'', case filename of None \<Rightarrow> JNull | Some name \<Rightarrow> JString name)]"

definition add_entry ::
  "json_io \<Rightarrow> string \<Rightarrow> string \<Rightarrow> string \<Rightarrow> bool \<Rightarrow> string option
     \<Rightarrow> entry list download_history \<Rightarrow> entry list download_history \<times> exn option" where
  "add_entry io now url platform success filename h =
     (let e = make_entry now url platform success filename;
          appended = history h @ [e];
          kept = (if length appended > 100 then last_n 100 appended else appended)
      in save_history io (h\<lparr>history := kept\<rparr>))"

text \<open>
  Several calls of \<open>add_entry\<close> in a row, one per record \<open>(now, url, platform,
  success)\<close>, as long as none lets an exception out.
\<close>

fun add_entries ::
  "json_io \<Rightarrow> (string \<times> string \<times> string \<times> bool) list \<Rightarrow> entry list download_history
     \<Rightarrow> entry list download_history \<times> exn option" where
  "add_entries io [] h = (h, None)"
| "add_entries io ((now, url, platform, success) # rs) h =
     (case add_entry io now url platform success None h of
        (h', Some e) \<Rightarrow> (h', Some e)
      | (h', None) \<Rightarrow> add_entries io rs h')"

text \<open>The entry that \<open>add_entries\<close> stores for a record.\<close>

definition record_entry :: "string \<times> string \<times> string \<times> bool \<Rightarrow> entry" where
  "record_entry r =
     (case r of (now, url, platform, success) \<Rightarrow> make_entry now url platform success None)"

section \<open>Download strategies\<close>

text \<open>
  A path under the download root: \<open>DOWNLOAD_PATH\<close> itself, or a path extended by one
  name with \<open>/\<close>.
\<close>

datatype path = DOWNLOAD_PATH | Join path string

text \<open>The options dict handed to \<open>YoutubeDL\<close>; a key that is not set is \<open>None\<close>.\<close>

record ydl_options =
  outtmpl :: path
  quiet :: bool
  no_warnings :: bool
  noplaylist :: bool
  ignoreerrors :: bool
  no_color :: bool
  progress :: bool
  format :: string
  writethumbnail :: bool
  writeinfojson :: bool
  writesubtitles :: bool
  writeautomaticsub :: bool
  subtitleslangs :: "string list"
  merge_output_format :: "string option"
  cookiefile :: "string option"

text \<open>
  What the program does to the outside world, in order: the calls of the external
  capabilities, the pauses, and the messages of the batch that tell its outcomes apart.
  Other console output is not modelled.
\<close>

datatype event =
    CreateFolder path
  | ExtractInfo string ydl_options
  | InstaloaderDownload string path
  | Sleep nat
  | InvalidUrl string
  | UndetectedPlatform string
  | NoUrlsFound
  | FileNotFound
  | BatchFailed exn
  | BatchCompleted nat nat

text \<open>
  The external capabilities. Each may depend on everything that happened before (the
  events so far) and may raise. \<open>extract_info\<close> gives the info dict or \<open>None\<close>;
  \<open>instaloader_init\<close> stands for the construction of \<open>Instaloader\<close>, and
  \<open>instaloader_download\<close> for \<open>Post.from_shortcode\<close> followed by \<open>download_post\<close>,
  which gives the title of the post. \<open>report_error\<close> is what an \<open>except\<close> handler
  does with the exception it caught before it goes on, \<open>print_error\<close> and what
  follows it: it gives the exception that this output raises, if any
  (\<open>UnicodeEncodeError\<close> on a console that cannot show the message, for one).
\<close>

type_synonym info = "(string \<times> string) list"

record env =
  mkdir :: "event list \<Rightarrow> path \<Rightarrow> exn option"
  extract_info :: "event list \<Rightarrow> string \<Rightarrow> ydl_options \<Rightarrow> exn + info option"
  instaloader_init :: "event list \<Rightarrow> exn option"
  instaloader_download :: "event list \<Rightarrow> string \<Rightarrow> path \<Rightarrow> exn + string option"
  report_error :: "event list \<Rightarrow> exn \<Rightarrow> exn option"
  lib :: pylib

text \<open>\<open>x or d\<close> for an optional string: \<open>None\<close> and the empty string are false.\<close>

definition str_or :: "string option \<Rightarrow> string \<Rightarrow> string" where
  "str_or x d = (case x of None \<Rightarrow> d | Some s \<Rightarrow> if s = [] then d else s)"

text \<open>
  The truth value of an optional string: \<open>truthy x\<close> is \<open>Some s\<close> when \<open>x\<close> is the
  non-empty string \<open>s\<close>, and \<open>None\<close> when \<open>not x\<close> holds. \<open>opt_or x y\<close> is
  \<open>x or y\<close> when both are optional strings.
\<close>

definition truthy :: "string option \<Rightarrow> string option" where
  "truthy x = (case x of None \<Rightarrow> None | Some s \<Rightarrow> if s = [] then None else Some s)"

definition opt_or :: "string option \<Rightarrow> string option \<Rightarrow> string option" where
  "opt_or x y = (case truthy x of Some s \<Rightarrow> Some s | None \<Rightarrow> y)"

definition get_ydl_options :: "string \<Rightarrow> string option \<Rightarrow> path option \<Rightarrow> ydl_options" where
  "get_ydl_options platform quality output_path =
     (let options =
        \<lparr>outtmpl = Join (case output_path of None \<Rightarrow> DOWNLOAD_PATH | Some p \<Rightarrow> p)
                     ''%(title)s.%(ext)s'',
         quiet = False, no_warnings = False, noplaylist = True, ignoreerrors = True,
         no_color = True, progress = True,
         format = str_or quality DEFAULT_QUALITY,
         writethumbnail = True, writeinfojson = True, writesubtitles = False,
         writeautomaticsub = False, subtitleslangs = [''en''],
         merge_output_format = None, cookiefile = None\<rparr>
      in if platform = ''youtube'' then
           options\<lparr>format := ''bestvideo[height<=1080]+bestaudio/best[height<=1080]'',
                   merge_output_format := Some ''mp4''\<rparr>
         else if platform = ''instagram'' then options\<lparr>cookiefile := Some ''cookies.txt''\<rparr>
         else options)"

text \<open>
  The \<open>try\<close> block of \<open>download_with_ytdlp\<close>, with \<open>create_platform_folder\<close>
  inlined. The result is the events so far and either the boolean returned or the
  exception raised in the block. \<open>if info\<close> is false for \<open>None\<close> and for an empty
  dict. The progress messages printed inside the block are taken to be written
  without error.
\<close>

definition ytdlp_try ::
  "env \<Rightarrow> string \<Rightarrow> string \<Rightarrow> string option \<Rightarrow> event list \<Rightarrow> event list \<times> (exn + bool)" where
  "ytdlp_try ev url platform quality tr =
     (let platform_path = Join DOWNLOAD_PATH (capitalize platform);
          tr1 = tr @ [CreateFolder platform_path]
      in case mkdir ev tr platform_path of
           Some e \<Rightarrow> (tr1, Inl e)
         | None \<Rightarrow>
             (let options = get_ydl_options platform quality (Some platform_path);
                  tr2 = tr1 @ [ExtractInfo url options]
              in case extract_info ev tr1 url options of
                   Inl e \<Rightarrow> (tr2, Inl e)
                 | Inr None \<Rightarrow> (tr2, Inr False)
                 | Inr (Some info) \<Rightarrow> (tr2, Inr (info \<noteq> []))))"

text \<open>
  The handlers of the strategies: \<open>except Exception\<close>, and before it in
  \<open>download_instagram\<close> \<open>except InstaloaderException\<close>. Both report the exception
  with \<open>print_error\<close> and then return \<open>False\<close>. Nothing catches what the report
  itself raises: that exception leaves the function. An exception that is not derived
  from \<open>Exception\<close> passes by the handlers to the caller.
\<close>

definition except_Exception ::
  "env \<Rightarrow> event list \<times> (exn + bool) \<Rightarrow> event list \<times> (exn + bool)" where
  "except_Exception ev res =
     (case res of
        (tr, Inr returned) \<Rightarrow> (tr, Inr returned)
      | (tr, Inl e) \<Rightarrow>
          if is_Exception e then
            (case report_error ev tr e of
               None \<Rightarrow> (tr, Inr False)
             | Some e' \<Rightarrow> (tr, Inl e'))
          else (tr, Inl e))"

text \<open>\<open>download_with_ytdlp\<close>.\<close>

definition download_with_ytdlp ::
  "env \<Rightarrow> string \<Rightarrow> string \<Rightarrow> string option \<Rightarrow> event list \<Rightarrow> event list \<times> (exn + bool)" where
  "download_with_ytdlp ev url platform quality tr =
     except_Exception ev (ytdlp_try ev url platform quality tr)"

text \<open>The \<open>try\<close> block of \<open>download_instagram\<close>, and the function.\<close>

definition instagram_try ::
  "env \<Rightarrow> string \<Rightarrow> event list \<Rightarrow> event list \<times> (exn + bool)" where
  "instagram_try ev url tr =
     (let instagram_path = Join DOWNLOAD_PATH (capitalize ''instagram'');
          tr1 = tr @ [CreateFolder instagram_path]
      in case mkdir ev tr instagram_path of
           Some e \<Rightarrow> (tr1, Inl e)
         | None \<Rightarrow>
             (case instaloader_init ev tr1 of
                Some e \<Rightarrow> (tr1, Inl e)
              | None \<Rightarrow>
                  (case truthy (extract_video_id (lib ev) url ''instagram'') of
                     None \<Rightarrow> (tr1, Inr False)
                   | Some shortcode \<Rightarrow>
                       (let tr2 = tr1 @ [InstaloaderDownload shortcode instagram_path]
                        in case instaloader_download ev tr1 shortcode instagram_path of
                             Inl e \<Rightarrow> (tr2, Inl e)
                           | Inr title \<Rightarrow> (tr2, Inr True)))))"

definition download_instagram ::
  "env \<Rightarrow> string \<Rightarrow> event list \<Rightarrow> event list \<times> (exn + bool)" where
  "download_instagram ev url tr = except_Exception ev (instagram_try ev url tr)"

section \<open>Batch download\<close>

text \<open>
  The loop of \<open>download_from_file\<close> over \<open>enumerate(urls, 1)\<close>; \<open>n\<close> is
  \<open>len(urls)\<close>. \<open>continue\<close> goes to the next URL at once. The result is the events
  so far and either the count of successes or the exception that leaves the loop.
\<close>

fun batch_loop ::
  "env \<Rightarrow> string option \<Rightarrow> nat \<Rightarrow> (nat \<times> string) list \<Rightarrow> nat \<Rightarrow> event list
     \<Rightarrow> event list \<times> (exn + nat)" where
  "batch_loop ev platform n [] success_count tr = (tr, Inr success_count)"
| "batch_loop ev platform n ((i, url) # rest) success_count tr =
     (if \<not> is_valid_url (code_points url) then
        batch_loop ev platform n rest success_count (tr @ [InvalidUrl url])
      else
        (case truthy (opt_or platform (detect_platform url)) of
           None \<Rightarrow>
             batch_loop ev platform n rest success_count (tr @ [UndetectedPlatform url])
         | Some detected_platform \<Rightarrow>
             (case (if detected_platform = ''instagram''
                    then download_instagram ev url tr
                    else download_with_ytdlp ev url detected_platform None tr) of
                (tr1, Inl e) \<Rightarrow> (tr1, Inl e)
              | (tr1, Inr success) \<Rightarrow>
                  batch_loop ev platform n rest
                    (if success then success_count + 1 else success_count)
                    (if i < n then tr1 @ [Sleep REQUEST_DELAY] else tr1))))"

text \<open>\<open>enumerate(xs, start)\<close>.\<close>

definition enumerate_from :: "nat \<Rightarrow> 'a list \<Rightarrow> (nat \<times> 'a) list" where
  "enumerate_from start xs = zip [start ..< start + length xs] xs"

text \<open>
  The loop applied to a list of URLs as \<open>download_from_file\<close> starts it.
\<close>

definition run_batch ::
  "env \<Rightarrow> string list \<Rightarrow> string option \<Rightarrow> event list \<Rightarrow> event list \<times> (exn + nat)" where
  "run_batch ev urls platform tr =
     batch_loop ev platform (length urls) (enumerate_from 1 urls) 0 tr"

text \<open>
  \<open>download_from_file\<close>. The file is what opening and reading \<open>filepath\<close> gives: its
  lines, or an exception. \<open>FileNotFoundError\<close> and every other exception derived from
  \<open>Exception\<close> are reported and dropped; what the report itself raises leaves the
  function. The function takes the file and the optional platform only: it has no
  access to the history or to the quality setting.
\<close>

definition batch_handler :: "env \<Rightarrow> exn \<Rightarrow> event list \<Rightarrow> event list \<times> exn option" where
  "batch_handler ev e tr =
     (if is_Exception e then
        (case report_error ev tr e of
           None \<Rightarrow> (tr @ [if e = FileNotFoundError then FileNotFound else BatchFailed e], None)
         | Some e' \<Rightarrow> (tr, Some e'))
      else (tr, Some e))"

definition download_from_file ::
  "env \<Rightarrow> exn + string list \<Rightarrow> string option \<Rightarrow> event list \<Rightarrow> event list \<times> exn option" where
  "download_from_file ev file platform tr =
     (case file of
        Inl e \<Rightarrow> batch_handler ev e tr
      | Inr lines \<Rightarrow>
          (let urls = map strip (filter (\<lambda>line. strip line \<noteq> []) lines)
           in if urls = [] then (tr @ [NoUrlsFound], None)
              else
                (case run_batch ev urls platform tr of
                   (tr', Inl e) \<Rightarrow> batch_handler ev e tr'
                 | (tr', Inr success_count) \<Rightarrow>
                     (tr' @ [BatchCompleted success_count (length urls)], None))))"

section \<open>The application\<close>

text \<open>\<open>QualityManager\<close>: the current quality and the menu that sets it.\<close>

definition quality_map :: "int \<Rightarrow> string option" where
  "quality_map =
     [1 \<mapsto> ''best'', 2 \<mapsto> ''1080p'', 3 \<mapsto> ''720p'', 4 \<mapsto> ''480p'', 5 \<mapsto> ''360p'',
      6 \<mapsto> ''worst'']"

definition set_quality :: "int \<Rightarrow> string \<Rightarrow> string" where
  "set_quality choice quality =
     (if choice = 7 \<or> choice = - 1 then quality
      else (case quality_map choice of Some q \<Rightarrow> q | None \<Rightarrow> quality))"

text \<open>\<open>MediaDownloaderApp\<close>: the history and the quality manager.\<close>

record app =
  app_history :: "entry list download_history"
  app_quality :: string

definition platform_map :: "int \<Rightarrow> string option" where
  "platform_map =
     [2 \<mapsto> ''youtube'', 3 \<mapsto> ''instagram'', 4 \<mapsto> ''tiktok'', 5 \<mapsto> ''twitter'',
      6 \<mapsto> ''other'']"

text \<open>
  \<open>handle_single_download\<close>. The menu choice and the URL typed in are arguments;
  \<open>get_url_input\<close> returns \<open>None\<close> or a URL that \<open>is_valid_url\<close> accepts. The result
  is the application, the events and the exception that leaves the method, if any.
\<close>

definition handle_single_download ::
  "env \<Rightarrow> json_io \<Rightarrow> string \<Rightarrow> int \<Rightarrow> string option \<Rightarrow> app \<Rightarrow> event list
     \<Rightarrow> app \<times> event list \<times> exn option" where
  "handle_single_download ev io now platform_choice url_input a tr =
     (if platform_choice = - 1 \<or> platform_choice = 7 then (a, tr, None)
      else
        (case url_input of
           None \<Rightarrow> (a, tr, None)
         | Some url \<Rightarrow>
             (let platform =
                    (if platform_choice = 1 then
                       (case truthy (detect_platform url) of
                          None \<Rightarrow> ''other''
                        | Some p \<Rightarrow> p)
                     else (case platform_map platform_choice of
                             Some p \<Rightarrow> p
                           | None \<Rightarrow> ''other''))
              in case (if platform = ''instagram''
                       then download_instagram ev url tr
                       else download_with_ytdlp ev url platform (Some (app_quality a)) tr) of
                   (tr1, Inl e) \<Rightarrow> (a, tr1, Some e)
                 | (tr1, Inr success) \<Rightarrow>
                     (case add_entry io now url platform success None (app_history a) of
                        (h', raised) \<Rightarrow> (a\<lparr>app_history := h'\<rparr>, tr1, raised)))))"

text \<open>
  \<open>handle_batch_download\<close>. \<open>file_input\<close> is what \<open>get_file_input\<close> gives, \<open>None\<close>
  or a path, given here by what reading that file yields.
\<close>

definition handle_batch_download ::
  "env \<Rightarrow> (exn + string list) option \<Rightarrow> int \<Rightarrow> app \<Rightarrow> event list
     \<Rightarrow> app \<times> event list \<times> exn option" where
  "handle_batch_download ev file_input platform_choice a tr =
     (case file_input of
        None \<Rightarrow> (a, tr, None)
      | Some file \<Rightarrow>
          if platform_choice = - 1 \<or> platform_choice = 7 then (a, tr, None)
          else
            (let platform =
                   (if platform_choice \<noteq> 1 then
                      (case platform_map platform_choice of
                         Some p \<Rightarrow> Some p
                       | None \<Rightarrow> Some ''other'')
                    else None)
             in case download_from_file ev file platform tr of
                  (tr', raised) \<Rightarrow> (a, tr', raised)))"

section \<open>Observing a batch\<close>

text \<open>
  What a run of the batch shows of its pacing: a URL skipped, a URL handed to a
  download strategy (each strategy starts by creating its folder, once), and a pause.
\<close>

datatype pace = Skipped | Fetched | Delay nat

fun pace_of :: "event \<Rightarrow> pace list" where
  "pace_of (InvalidUrl u) = [Skipped]"
| "pace_of (UndetectedPlatform u) = [Skipped]"
| "pace_of (CreateFolder p) = [Fetched]"
| "pace_of (Sleep d) = [Delay d]"
| "pace_of e = []"

definition pacing :: "event list \<Rightarrow> pace list" where
  "pacing tr = concat (map pace_of tr)"

text \<open>
  A URL reaches the download step of the loop when it is valid and a platform is
  given or detected.
\<close>

definition reaches_fetch :: "string option \<Rightarrow> string \<Rightarrow> bool" where
  "reaches_fetch platform url =
     (is_valid_url (code_points url) \<and>
      truthy (opt_or platform (detect_platform url)) \<noteq> None)"

section \<open>Sample surroundings\<close>

text \<open>
  Concrete libraries, capabilities and files, on which the program is run in the
  examples below: a fetch that succeeds, one that fails, one interrupted from the
  keyboard, and one that fails on a console that cannot show the error message.
\<close>

definition sample_lib :: pylib where
  "sample_lib = \<lparr>check_bracketed_host = (\<lambda>h. True), percent_decode = (\<lambda>s. s)\<rparr>"

definition sample_env :: env where
  "sample_env =
     \<lparr>mkdir = (\<lambda>tr p. None),
      extract_info = (\<lambda>tr u opts. Inr (Some [(''title'', ''clip'')])),
      instaloader_init = (\<lambda>tr. None),
      instaloader_download = (\<lambda>tr code p. Inr (Some ''post'')),
      report_error = (\<lambda>tr e. None),
      lib = sample_lib\<rparr>"

definition failing_env :: env where
  "failing_env =
     \<lparr>mkdir = (\<lambda>tr p. None),
      extract_info = (\<lambda>tr u opts. Inl (Exception ''DownloadError'')),
      instaloader_init = (\<lambda>tr. None),
      instaloader_download = (\<lambda>tr code p. Inl (InstaloaderException ''private'')),
      report_error = (\<lambda>tr e. None),
      lib = sample_lib\<rparr>"

definition interrupted_env :: env where
  "interrupted_env =
     \<lparr>mkdir = (\<lambda>tr p. None),
      extract_info = (\<lambda>tr u opts. Inl (BaseException ''KeyboardInterrupt'')),
      instaloader_init = (\<lambda>tr. None),
      instaloader_download = (\<lambda>tr code p. Inl (BaseException ''KeyboardInterrupt'')),
      report_error = (\<lambda>tr e. None),
      lib = sample_lib\<rparr>"

definition mute_env :: env where
  "mute_env =
     \<lparr>mkdir = (\<lambda>tr p. None),
      extract_info = (\<lambda>tr u opts. Inl (Exception ''DownloadError'')),
      instaloader_init = (\<lambda>tr. None),
      instaloader_download = (\<lambda>tr code p. Inl (InstaloaderException ''private'')),
      report_error = (\<lambda>tr e. Some (Exception ''UnicodeEncodeError'')),
      lib = sample_lib\<rparr>"

definition sample_entry :: entry where
  "sample_entry =
     make_entry ''2024-01-01T00:00:00'' ''https://youtu.be/abc'' ''youtube'' True None"

definition sample_io :: json_io where
  "sample_io =
     \<lparr>json_load = (\<lambda>text. if text = ''[]'' then Inr (JArray [])
                          else if text = ''[entry]'' then Inr (JArray [sample_entry])
                          else Inl ValueError),
      json_dump = (\<lambda>h. if h = [] then ''[]'' else ''[entry]''),
      write_file = (\<lambda>file text. (Some (Inr text), None)),
      exists_error = (\<lambda>file. None)\<rparr>"

text \<open>
  The same, with a download folder that cannot be searched: the test whether the
  history file exists raises \<open>PermissionError\<close>.
\<close>

definition locked_io :: json_io where
  "locked_io = sample_io\<lparr>exists_error := (\<lambda>file. Some (Exception ''PermissionError''))\<rparr>"

text \<open>
  A batch of three lines as read from a file, each with its newline: a text that is
  not a URL, a YouTube URL, and a URL of a site that no pattern knows. And an
  application that has just started, with the quality set to 720p.
\<close>

definition sample_lines :: "string list" where
  "sample_lines =
     [''not a url'' @ [CHR 0x0A],
      ''https://www.youtube.com/watch?v=dQw4w9WgXcQ'' @ [CHR 0x0A],
      ''https://example.org/clip'' @ [CHR 0x0A]]"

definition sample_urls :: "string list" where
  "sample_urls =
     [''not a url'', ''https://www.youtube.com/watch?v=dQw4w9WgXcQ'',
      ''https://example.org/clip'']"

definition sample_app :: app where
  "sample_app =
     \<lparr>app_history = \<lparr>history = [], history_file = None\<rparr>, app_quality = ''720p''\<rparr>"

section \<open>Properties\<close>

lemma lower_tables_disjoint:
  "list_all (\<lambda>d. d \<notin> set (ascii_uppercase @ latin1_uppercase))
     (ascii_lowercase @ latin1_lowercase)"
  by code_simp

lemma lower_tables_length:
  "length (ascii_uppercase @ latin1_uppercase) = length (ascii_lowercase @ latin1_lowercase)"
  by code_simp

lemma lower_char_idem: "lower_char (lower_char c) = lower_char c"
proof (cases "map_of (zip (ascii_uppercase @ latin1_uppercase)
                       (ascii_lowercase @ latin1_lowercase)) c")
  case None
  then show ?thesis by (simp add: lower_char_def)
next
  case (Some d)
  then have "d \<in> set (ascii_lowercase @ latin1_lowercase)"
    by (meson map_of_SomeD set_zip_rightD)
  then have "d \<notin> set (ascii_uppercase @ latin1_uppercase)"
    using lower_tables_disjoint by (simp only: list_all_iff) blast
  then have "map_of (zip (ascii_uppercase @ latin1_uppercase)
                       (ascii_lowercase @ latin1_lowercase)) d = None"
    using lower_tables_length by (metis map_of_zip_is_None)
  then show ?thesis using Some by (simp add: lower_char_def)
qed

lemma py_lower_idem: "py_lower (py_lower s) = py_lower s"
  by (simp add: py_lower_def lower_char_idem)

text \<open>
  C10. \<open>detect_platform\<close> is insensitive to case over the whole URL: a URL and its
  lower-cased form are classified alike.
\<close>

theorem detect_platform_case_insensitive:
  "detect_platform url = detect_platform (py_lower url)"
  by (simp add: detect_platform_def py_lower_idem)

subsection \<open>The history store\<close>

lemma history_save: "history (fst (save_history io h)) = history h"
  by (simp add: save_history_def split: prod.splits)

lemma history_add_entry:
  "history (fst (add_entry io now url platform success filename h)) =
     last_n 100 (history h @ [make_entry now url platform success filename])"
  by (simp add: add_entry_def Let_def history_save last_n_def)

lemma save_no_escape:
  assumes "\<forall>f t e. snd (write_file io f t) = Some e \<longrightarrow> is_Exception e"
  shows "snd (save_history io h) = None"
proof -
  obtain f' r where w: "write_file io (history_file h) (json_dump io (history h)) = (f', r)"
    by (cases "write_file io (history_file h) (json_dump io (history h))") auto
  have "is_Exception e" if "r = Some e" for e
    using assms w that by (metis snd_conv)
  then show ?thesis
    by (auto simp: save_history_def w split: option.splits)
qed

lemma add_entry_no_escape:
  assumes "\<forall>f t e. snd (write_file io f t) = Some e \<longrightarrow> is_Exception e"
  shows "snd (add_entry io now url platform success filename h) = None"
  using save_no_escape[OF assms] by (simp add: add_entry_def Let_def)

lemma last_n_last_n: "last_n n (last_n n xs @ ys) = last_n n (xs @ ys)"
  by (cases "n \<le> length xs") (auto simp: last_n_def add.commute)

lemma history_add_entries:
  assumes "\<forall>f t e. snd (write_file io f t) = Some e \<longrightarrow> is_Exception e"
  shows "rs \<noteq> [] \<Longrightarrow>
    history (fst (add_entries io rs h)) = last_n 100 (history h @ map record_entry rs)"
proof (induction rs arbitrary: h)
  case Nil
  then show ?case by simp
next
  case (Cons r rs)
  obtain now url platform success where r: "r = (now, url, platform, success)"
    by (cases r) auto
  obtain h' where h': "add_entry io now url platform success None h = (h', None)"
    using add_entry_no_escape[OF assms, of now url platform success None h]
    by (cases "add_entry io now url platform success None h") auto
  have hh: "history h' = last_n 100 (history h @ [record_entry r])"
    using history_add_entry[of io now url platform success None h] h'
    by (simp add: r record_entry_def)
  show ?case
  proof (cases "rs = []")
    case True
    then show ?thesis using h' hh by (simp add: r)
  next
    case False
    then have "history (fst (add_entries io rs h')) =
        last_n 100 (history h' @ map record_entry rs)"
      using Cons.IH by blast
    then show ?thesis using h' hh by (simp add: r last_n_last_n)
  qed
qed

text \<open>
  C5. After any \<open>add_entry\<close> the list in memory has at most 100 entries, whatever its
  length before. Below the cap the new record is appended; on a list of exactly 100
  the oldest entry is dropped from the front, the others keep their order and the new
  record comes last. 101 records added to an empty store, with a disk whose failures
  are ordinary exceptions, leave exactly 100: all but the first, in order.
\<close>

theorem history_cap:
  "length (history (fst (add_entry io now url platform success filename h))) \<le> 100
   \<and> (length (history h) < 100 \<longrightarrow>
        history (fst (add_entry io now url platform success filename h)) =
          history h @ [make_entry now url platform success filename])
   \<and> (length (history h) = 100 \<longrightarrow>
        history (fst (add_entry io now url platform success filename h)) =
          tl (history h) @ [make_entry now url platform success filename])
   \<and> ((\<forall>f t e. snd (write_file io f t) = Some e \<longrightarrow> is_Exception e) \<and> length rs = 101 \<longrightarrow>
        length (history (fst (add_entries io rs \<lparr>history = [], history_file = stored\<rparr>))) = 100 \<and>
        history (fst (add_entries io rs \<lparr>history = [], history_file = stored\<rparr>)) =
          map record_entry (tl rs))"
proof (intro conjI impI)
  show "length (history (fst (add_entry io now url platform success filename h))) \<le> 100"
    by (simp add: history_add_entry last_n_def)
next
  assume "length (history h) < 100"
  then show "history (fst (add_entry io now url platform success filename h)) =
          history h @ [make_entry now url platform success filename]"
    by (simp add: history_add_entry last_n_def)
next
  assume "length (history h) = 100"
  then show "history (fst (add_entry io now url platform success filename h)) =
          tl (history h) @ [make_entry now url platform success filename]"
    by (cases "history h") (simp_all add: history_add_entry last_n_def)
next
  assume a: "(\<forall>f t e. snd (write_file io f t) = Some e \<longrightarrow> is_Exception e) \<and> length rs = 101"
  then have ne: "rs \<noteq> []" by auto
  have eq: "history (fst (add_entries io rs \<lparr>history = [], history_file = stored\<rparr>)) =
      last_n 100 (map record_entry rs)"
    using history_add_entries[of io rs "\<lparr>history = [], history_file = stored\<rparr>"] a ne by simp
  have one: "length rs - 100 = Suc 0" using a by simp
  show "length (history (fst (add_entries io rs \<lparr>history = [], history_file = stored\<rparr>))) = 100"
    using a by (simp add: eq last_n_def)
  show "history (fst (add_entries io rs \<lparr>history = [], history_file = stored\<rparr>)) =
      map record_entry (tl rs)"
    by (simp add: eq last_n_def one drop_Suc map_tl)
qed

theorem history_cap_witness:
  "history (fst (add_entry sample_io ''t'' ''u'' ''p'' False None
       \<lparr>history = replicate 100 sample_entry, history_file = None\<rparr>)) =
     replicate 99 sample_entry @ [make_entry ''t'' ''u'' ''p'' False None]
   \<and> length (history (fst (add_entries sample_io (replicate 101 (''t'', ''u'', ''p'', True))
       \<lparr>history = [], history_file = None\<rparr>))) = 100"
proof -
  have w: "\<forall>f t e. snd (write_file sample_io f t) = Some e \<longrightarrow> is_Exception e"
    by (simp add: sample_io_def)
  have t: "tl (replicate 100 sample_entry) = replicate 99 sample_entry"
    by (simp add: tl_replicate)
  show ?thesis
    using history_cap[where io = sample_io and now = "''t''" and url = "''u''"
        and platform = "''p''" and success = False and filename = None
        and h = "\<lparr>history = replicate 100 sample_entry, history_file = None\<rparr>"
        and rs = "replicate 101 (''t'', ''u'', ''p'', True)" and stored = None] w t
    by simp
qed

text \<open>
  When the test for the file raises nothing, \<open>load_history\<close> returns a value and
  never raises: the empty list with no file; what the file holds when it reads and
  parses; the empty list when it does not parse or cannot be read.
\<close>

lemma load_history_after_exists:
  assumes "exists_error io file = None"
  shows "(\<exists>loaded. load_history io file = Inr loaded)
   \<and> (file = None \<longrightarrow> load_history io file = Inr (JArray []))
   \<and> (\<forall>text loaded. file = Some (Inr text) \<and> json_load io text = Inr loaded \<longrightarrow>
         load_history io file = Inr loaded)
   \<and> (\<forall>text e. file = Some (Inr text) \<and> json_load io text = Inl e \<longrightarrow>
         load_history io file = Inr (JArray []))
   \<and> (\<forall>e. file = Some (Inl e) \<longrightarrow> load_history io file = Inr (JArray []))
   \<and> (\<exists>h. new_history io file = Inr h \<and> load_history io file = Inr (history h))"
  using assms
  by (auto simp: load_history_def new_history_def split: option.splits sum.splits)

lemma load_history_exists_raises:
  "exists_error io file = Some e \<Longrightarrow>
   load_history io file = Inl e \<and> new_history io file = Inl e"
  by (simp add: load_history_def new_history_def)

text \<open>
  C7. With a download folder that cannot be searched, the test whether the history
  file exists raises \<open>PermissionError\<close> before the \<open>try\<close> is entered: \<open>load_history\<close>
  raises it, and the construction of the store fails, whatever the file holds.
\<close>

theorem load_history_raises:
  "load_history locked_io (Some (Inr ''[entry]'')) = Inl (Exception ''PermissionError'')
   \<and> new_history locked_io (Some (Inr ''[entry]'')) = Inl (Exception ''PermissionError'')
   \<and> load_history sample_io (Some (Inr ''[entry]'')) = Inr (JArray [sample_entry])"
  by (simp add: load_history_def new_history_def locked_io_def sample_io_def)

subsection \<open>The download strategies\<close>

lemma except_Exception_cases:
  "snd (except_Exception ev (tr, r)) =
     (case r of
        Inr returned \<Rightarrow> Inr returned
      | Inl e \<Rightarrow>
          if is_Exception e
          then (case report_error ev tr e of None \<Rightarrow> Inr False | Some e' \<Rightarrow> Inl e')
          else Inl e)"
  by (simp add: except_Exception_def split: sum.splits option.splits)

text \<open>
  C6, as the code has it. In both strategies, an exception raised inside the \<open>try\<close>
  block (by the creation of the folder or by the fetch capability) has one of three
  ends. If it is derived from \<open>Exception\<close> and the report of the handler succeeds,
  the strategy returns \<open>False\<close>. If it is not derived from \<open>Exception\<close>, it leaves
  the strategy unchanged. If it is derived from \<open>Exception\<close> and the report of the
  handler raises, what the report raises leaves the strategy. So when the reports
  succeed, whatever leaves a strategy as an exception is not derived from
  \<open>Exception\<close>.
\<close>

theorem strategies_catch_Exception:
  "(\<forall>tr' e. ytdlp_try ev url platform quality tr = (tr', Inl e) \<longrightarrow>
       snd (download_with_ytdlp ev url platform quality tr) =
         (if is_Exception e
          then (case report_error ev tr' e of None \<Rightarrow> Inr False | Some e' \<Rightarrow> Inl e')
          else Inl e))
   \<and> (\<forall>tr' e. instagram_try ev url tr = (tr', Inl e) \<longrightarrow>
       snd (download_instagram ev url tr) =
         (if is_Exception e
          then (case report_error ev tr' e of None \<Rightarrow> Inr False | Some e' \<Rightarrow> Inl e')
          else Inl e))
   \<and> (\<forall>e. mkdir ev tr (Join DOWNLOAD_PATH (capitalize platform)) = Some e \<longrightarrow>
       snd (ytdlp_try ev url platform quality tr) = Inl e)
   \<and> (\<forall>e. mkdir ev tr (Join DOWNLOAD_PATH (capitalize platform)) = None \<and>
       extract_info ev (tr @ [CreateFolder (Join DOWNLOAD_PATH (capitalize platform))]) url
         (get_ydl_options platform quality (Some (Join DOWNLOAD_PATH (capitalize platform))))
         = Inl e \<longrightarrow>
       snd (ytdlp_try ev url platform quality tr) = Inl e)
   \<and> (\<forall>e. mkdir ev tr (Join DOWNLOAD_PATH (capitalize ''instagram'')) = Some e \<longrightarrow>
       snd (instagram_try ev url tr) = Inl e)
   \<and> (\<forall>e code. mkdir ev tr (Join DOWNLOAD_PATH (capitalize ''instagram'')) = None \<and>
       instaloader_init ev (tr @ [CreateFolder (Join DOWNLOAD_PATH (capitalize ''instagram''))])
         = None \<and>
       truthy (extract_video_id (lib ev) url ''instagram'') = Some code \<and>
       instaloader_download ev
         (tr @ [CreateFolder (Join DOWNLOAD_PATH (capitalize ''instagram''))])
         code (Join DOWNLOAD_PATH (capitalize ''instagram'')) = Inl e \<longrightarrow>
       snd (instagram_try ev url tr) = Inl e)
   \<and> ((\<forall>t e. report_error ev t e = None) \<longrightarrow>
       (\<forall>e. snd (download_with_ytdlp ev url platform quality tr) = Inl e \<longrightarrow>
            \<not> is_Exception e) \<and>
       (\<forall>e. snd (download_instagram ev url tr) = Inl e \<longrightarrow> \<not> is_Exception e))"
proof (intro conjI allI impI)
  fix tr' e assume "ytdlp_try ev url platform quality tr = (tr', Inl e)"
  then show "snd (download_with_ytdlp ev url platform quality tr) =
         (if is_Exception e
          then (case report_error ev tr' e of None \<Rightarrow> Inr False | Some e' \<Rightarrow> Inl e')
          else Inl e)"
    by (simp add: download_with_ytdlp_def except_Exception_cases)
next
  fix tr' e assume "instagram_try ev url tr = (tr', Inl e)"
  then show "snd (download_instagram ev url tr) =
         (if is_Exception e
          then (case report_error ev tr' e of None \<Rightarrow> Inr False | Some e' \<Rightarrow> Inl e')
          else Inl e)"
    by (simp add: download_instagram_def except_Exception_cases)
next
  fix e assume "mkdir ev tr (Join DOWNLOAD_PATH (capitalize platform)) = Some e"
  then show "snd (ytdlp_try ev url platform quality tr) = Inl e"
    by (simp add: ytdlp_try_def Let_def)
next
  fix e assume "mkdir ev tr (Join DOWNLOAD_PATH (capitalize platform)) = None \<and>
       extract_info ev (tr @ [CreateFolder (Join DOWNLOAD_PATH (capitalize platform))]) url
         (get_ydl_options platform quality (Some (Join DOWNLOAD_PATH (capitalize platform))))
         = Inl e"
  then show "snd (ytdlp_try ev url platform quality tr) = Inl e"
    by (simp add: ytdlp_try_def Let_def)
next
  fix e assume "mkdir ev tr (Join DOWNLOAD_PATH (capitalize ''instagram'')) = Some e"
  then show "snd (instagram_try ev url tr) = Inl e"
    by (simp add: instagram_try_def Let_def)
next
  fix e code
  assume "mkdir ev tr (Join DOWNLOAD_PATH (capitalize ''instagram'')) = None \<and>
       instaloader_init ev (tr @ [CreateFolder (Join DOWNLOAD_PATH (capitalize ''instagram''))])
         = None \<and>
       truthy (extract_video_id (lib ev) url ''instagram'') = Some code \<and>
       instaloader_download ev
         (tr @ [CreateFolder (Join DOWNLOAD_PATH (capitalize ''instagram''))])
         code (Join DOWNLOAD_PATH (capitalize ''instagram'')) = Inl e"
  then show "snd (instagram_try ev url tr) = Inl e"
    by (simp add: instagram_try_def Let_def)
next
  fix e
  assume quiet: "\<forall>t e. report_error ev t e = None"
    and esc: "snd (download_with_ytdlp ev url platform quality tr) = Inl e"
  obtain tr' r where res: "ytdlp_try ev url platform quality tr = (tr', r)"
    by (cases "ytdlp_try ev url platform quality tr") auto
  show "\<not> is_Exception e"
    using esc quiet
    by (auto simp: download_with_ytdlp_def res except_Exception_cases
        split: sum.splits if_splits)
next
  fix e
  assume quiet: "\<forall>t e. report_error ev t e = None"
    and esc: "snd (download_instagram ev url tr) = Inl e"
  obtain tr' r where res: "instagram_try ev url tr = (tr', r)"
    by (cases "instagram_try ev url tr") auto
  show "\<not> is_Exception e"
    using esc quiet
    by (auto simp: download_instagram_def res except_Exception_cases
        split: sum.splits if_splits)
qed

theorem strategies_catch_Exception_witness:
  "snd (download_with_ytdlp failing_env ''https://www.tiktok.com/@u/video/1'' ''tiktok'' None [])
     = Inr False
   \<and> snd (download_instagram failing_env ''https://www.instagram.com/p/abc/'' []) = Inr False"
proof -
  have y: "ytdlp_try failing_env ''https://www.tiktok.com/@u/video/1'' ''tiktok'' None [] =
      ([CreateFolder (Join DOWNLOAD_PATH ''Tiktok''),
        ExtractInfo ''https://www.tiktok.com/@u/video/1''
          (get_ydl_options ''tiktok'' None (Some (Join DOWNLOAD_PATH ''Tiktok'')))],
       Inl (Exception ''DownloadError''))"
    by code_simp
  have i: "instagram_try failing_env ''https://www.instagram.com/p/abc/'' [] =
      ([CreateFolder (Join DOWNLOAD_PATH ''Instagram''),
        InstaloaderDownload ''abc'' (Join DOWNLOAD_PATH ''Instagram'')],
       Inl (InstaloaderException ''private''))"
    by code_simp
  have q: "\<And>t e. report_error failing_env t e = None"
    by (simp add: failing_env_def)
  have a: "is_Exception (Exception ''DownloadError'')"
    and b: "is_Exception (InstaloaderException ''private'')"
    by simp_all
  from strategies_catch_Exception[of failing_env "''https://www.tiktok.com/@u/video/1''"
      "''tiktok''" None "[]"]
  have "snd (download_with_ytdlp failing_env ''https://www.tiktok.com/@u/video/1'' ''tiktok''
      None []) = Inr False"
    using y a q by simp
  moreover
  from strategies_catch_Exception[of failing_env "''https://www.instagram.com/p/abc/''"
      "''tiktok''" None "[]"]
  have "snd (download_instagram failing_env ''https://www.instagram.com/p/abc/'' []) = Inr False"
    using i b q by simp
  ultimately show ?thesis by blast
qed

text \<open>
  The claim as stated fails in two ways. A \<open>KeyboardInterrupt\<close> raised while the
  fetch capability runs is not derived from \<open>Exception\<close> and leaves both strategies.
  And when the fetch capability raises an ordinary error on a console that cannot show
  the message, the \<open>UnicodeEncodeError\<close> of the handler's \<open>print_error\<close> leaves
  both strategies.
\<close>

theorem strategies_escape_counterexample:
  "snd (download_with_ytdlp interrupted_env ''https://www.tiktok.com/@u/video/1'' ''tiktok''
          None [])
     = Inl (BaseException ''KeyboardInterrupt'')
   \<and> snd (download_instagram interrupted_env ''https://www.instagram.com/p/abc/'' [])
     = Inl (BaseException ''KeyboardInterrupt'')
   \<and> snd (download_with_ytdlp mute_env ''https://www.tiktok.com/@u/video/1'' ''tiktok''
          None [])
     = Inl (Exception ''UnicodeEncodeError'')
   \<and> snd (download_instagram mute_env ''https://www.instagram.com/p/abc/'' [])
     = Inl (Exception ''UnicodeEncodeError'')"
  by code_simp

subsection \<open>The batch\<close>

text \<open>
  The single download, next to which the batch is read: it passes the current quality
  to the generic strategy and records the attempt in the history.
\<close>

lemma single_download_recorded:
  "handle_single_download sample_env sample_io ''2024-01-01T00:00:00'' 1
       (Some ''https://www.tiktok.com/@u/video/1'') sample_app [] =
     (sample_app\<lparr>app_history :=
        \<lparr>history = [make_entry ''2024-01-01T00:00:00'' ''https://www.tiktok.com/@u/video/1''
                      ''tiktok'' True None],
         history_file = Some (Inr ''[entry]'')\<rparr>\<rparr>,
      [CreateFolder (Join DOWNLOAD_PATH ''Tiktok''),
       ExtractInfo ''https://www.tiktok.com/@u/video/1''
         (get_ydl_options ''tiktok'' (Some ''720p'') (Some (Join DOWNLOAD_PATH ''Tiktok'')))],
      None)
   \<and> format (get_ydl_options ''tiktok'' (Some ''720p'') (Some (Join DOWNLOAD_PATH ''Tiktok'')))
       = ''720p''"
  by code_simp

lemma handle_batch_download_app: "fst (handle_batch_download ev file_input choice a tr) = a"
  by (simp add: handle_batch_download_def Let_def split: option.splits prod.splits)

text \<open>
  C1. The batch of three lines run from the menu with automatic detection: the first
  is skipped as invalid, the second is fetched, the third is skipped for want of a
  platform, and the history of the application is as empty afterwards as before. No
  record is appended for any of the three.
\<close>

theorem batch_download_records_nothing:
  "handle_batch_download sample_env (Some (Inr sample_lines)) 1 sample_app [] =
     (sample_app,
      [InvalidUrl ''not a url'',
       CreateFolder (Join DOWNLOAD_PATH ''Youtube''),
       ExtractInfo ''https://www.youtube.com/watch?v=dQw4w9WgXcQ''
         (get_ydl_options ''youtube'' None (Some (Join DOWNLOAD_PATH ''Youtube''))),
       Sleep 1,
       UndetectedPlatform ''https://example.org/clip'',
       BatchCompleted 1 3],
      None)
   \<and> history (app_history sample_app) = []"
  by code_simp

text \<open>
  C2. With the quality of the application set to 720p, a batch of one TikTok URL
  calls the generic strategy without a quality, and the format handed to the fetch
  capability is the default \<open>best\<close>.
\<close>

theorem batch_download_ignores_quality:
  "app_quality sample_app = ''720p''
   \<and> handle_batch_download sample_env (Some (Inr [''https://www.tiktok.com/@u/video/1'']))
       1 sample_app [] =
     (sample_app,
      [CreateFolder (Join DOWNLOAD_PATH ''Tiktok''),
       ExtractInfo ''https://www.tiktok.com/@u/video/1''
         (get_ydl_options ''tiktok'' None (Some (Join DOWNLOAD_PATH ''Tiktok''))),
       BatchCompleted 1 1],
      None)
   \<and> format (get_ydl_options ''tiktok'' None (Some (Join DOWNLOAD_PATH ''Tiktok''))) = ''best''"
  by code_simp

lemma pacing_append: "pacing (a @ b) = pacing a @ pacing b"
  by (simp add: pacing_def)

lemma ytdlp_trace:
  "\<exists>new. fst (download_with_ytdlp ev url platform quality tr) = tr @ new \<and>
     pacing new = [Fetched]"
  by (auto simp: download_with_ytdlp_def ytdlp_try_def except_Exception_def Let_def pacing_def
      split: option.splits sum.splits)

lemma instagram_trace:
  "\<exists>new. fst (download_instagram ev url tr) = tr @ new \<and> pacing new = [Fetched]"
  by (auto simp: download_instagram_def instagram_try_def except_Exception_def Let_def
      pacing_def split: option.splits sum.splits)

lemma batch_loop_pacing:
  "batch_loop ev platform n ius cnt tr = (tr', Inr c) \<Longrightarrow>
   \<exists>new. tr' = tr @ new \<and>
     pacing new = concat (map (\<lambda>(i, u).
        if reaches_fetch platform u then Fetched # (if i < n then [Delay 1] else [])
        else [Skipped]) ius)"
proof (induction ius arbitrary: cnt tr)
  case Nil
  then show ?case by (simp add: pacing_def)
next
  case (Cons iu ius)
  obtain i u where iu: "iu = (i, u)" by (cases iu) auto
  show ?case
  proof (cases "is_valid_url (code_points u)")
    case False
    then have "batch_loop ev platform n ius cnt (tr @ [InvalidUrl u]) = (tr', Inr c)"
      using Cons.prems by (simp add: iu)
    from Cons.IH[OF this] obtain new where
      "tr' = (tr @ [InvalidUrl u]) @ new" and
      "pacing new = concat (map (\<lambda>(i, u).
        if reaches_fetch platform u then Fetched # (if i < n then [Delay 1] else [])
        else [Skipped]) ius)" by blast
    then show ?thesis using False
      by (intro exI[of _ "InvalidUrl u # new"]) (simp add: iu reaches_fetch_def pacing_def)
  next
    case True
    show ?thesis
    proof (cases "truthy (opt_or platform (detect_platform u))")
      case None
      then have "batch_loop ev platform n ius cnt (tr @ [UndetectedPlatform u]) = (tr', Inr c)"
        using Cons.prems True by (simp add: iu)
      from Cons.IH[OF this] obtain new where
        "tr' = (tr @ [UndetectedPlatform u]) @ new" and
        "pacing new = concat (map (\<lambda>(i, u).
          if reaches_fetch platform u then Fetched # (if i < n then [Delay 1] else [])
          else [Skipped]) ius)" by blast
      then show ?thesis using None
        by (intro exI[of _ "UndetectedPlatform u # new"])
           (simp add: iu reaches_fetch_def pacing_def)
    next
      case (Some dp)
      define res where "res = (if dp = ''instagram'' then download_instagram ev u tr
                     else download_with_ytdlp ev u dp None tr)"
      obtain tr1 r where res: "res = (tr1, r)" by (cases res) auto
      obtain new1 where new1: "tr1 = tr @ new1" "pacing new1 = [Fetched]"
        using ytdlp_trace[of ev u dp None tr] instagram_trace[of ev u tr] res
        by (auto simp: res_def split: if_splits)
      have step: "batch_loop ev platform n (iu # ius) cnt tr =
          (case res of (tr1, Inl e) \<Rightarrow> (tr1, Inl e)
            | (tr1, Inr success) \<Rightarrow> batch_loop ev platform n ius
                    (if success then cnt + 1 else cnt)
                    (if i < n then tr1 @ [Sleep REQUEST_DELAY] else tr1))"
        using True Some by (simp add: iu res_def)
      obtain success where r: "r = Inr success"
        using Cons.prems step res by (cases r) auto
      have "batch_loop ev platform n ius (if success then cnt + 1 else cnt)
                    (if i < n then tr1 @ [Sleep REQUEST_DELAY] else tr1) = (tr', Inr c)"
        using Cons.prems step res r by simp
      from Cons.IH[OF this] obtain new where new:
        "tr' = (if i < n then tr1 @ [Sleep REQUEST_DELAY] else tr1) @ new"
        "pacing new = concat (map (\<lambda>(i, u).
          if reaches_fetch platform u then Fetched # (if i < n then [Delay 1] else [])
          else [Skipped]) ius)" by blast
      have rf: "reaches_fetch platform u" using True Some by (simp add: reaches_fetch_def)
      show ?thesis
        using new new1 rf
        by (intro exI[of _ "new1 @ (if i < n then [Sleep REQUEST_DELAY] else []) @ new"])
           (simp add: iu pacing_append REQUEST_DELAY_def, simp add: pacing_def)
    qed
  qed
qed

lemma sample_urls_pacing:
  "concat (map (\<lambda>(i, u).
        if reaches_fetch None u then Fetched # (if i < length sample_urls then [Delay 1] else [])
        else [Skipped]) (enumerate_from 1 sample_urls)) = [Skipped, Fetched, Delay 1, Skipped]"
  by code_simp

text \<open>
  C4. When the loop of the batch runs to its end, what it adds to the events shows,
  URL by URL in the order of the list: a skip for a URL that is invalid or has no
  platform, with no pause after it; a fetch for any other URL, followed by a pause of
  1 exactly when the URL is not the last of the list. For the batch of an invalid
  text, a YouTube URL and a URL of an unknown site this is a skip, a fetch, one pause
  and a skip: the only pause lies between the second and the third URL.
\<close>

theorem batch_pacing:
  "(run_batch ev urls platform tr = (tr', Inr c) \<longrightarrow>
      (\<exists>new. tr' = tr @ new \<and>
         pacing new = concat (map (\<lambda>(i, u).
            if reaches_fetch platform u
            then Fetched # (if i < length urls then [Delay 1] else [])
            else [Skipped]) (enumerate_from 1 urls))))
   \<and> (run_batch ev sample_urls None tr = (tr', Inr c) \<longrightarrow>
      (\<exists>new. tr' = tr @ new \<and> pacing new = [Skipped, Fetched, Delay 1, Skipped]))"
proof (intro conjI impI)
  assume "run_batch ev urls platform tr = (tr', Inr c)"
  then have "batch_loop ev platform (length urls) (enumerate_from 1 urls) 0 tr = (tr', Inr c)"
    unfolding run_batch_def .
  from batch_loop_pacing[OF this]
  show "\<exists>new. tr' = tr @ new \<and>
         pacing new = concat (map (\<lambda>(i, u).
            if reaches_fetch platform u
            then Fetched # (if i < length urls then [Delay 1] else [])
            else [Skipped]) (enumerate_from 1 urls))" .
next
  assume "run_batch ev sample_urls None tr = (tr', Inr c)"
  then have "batch_loop ev None (length sample_urls) (enumerate_from 1 sample_urls) 0 tr
      = (tr', Inr c)"
    unfolding run_batch_def .
  from batch_loop_pacing[OF this]
  show "\<exists>new. tr' = tr @ new \<and> pacing new = [Skipped, Fetched, Delay 1, Skipped]"
    unfolding sample_urls_pacing .
qed

theorem batch_pacing_witness:
  "run_batch sample_env sample_urls None [] =
     ([InvalidUrl ''not a url'',
       CreateFolder (Join DOWNLOAD_PATH ''Youtube''),
       ExtractInfo ''https://www.youtube.com/watch?v=dQw4w9WgXcQ''
         (get_ydl_options ''youtube'' None (Some (Join DOWNLOAD_PATH ''Youtube''))),
       Sleep 1,
       UndetectedPlatform ''https://example.org/clip''], Inr 1)
   \<and> pacing
      [InvalidUrl ''not a url'',
       CreateFolder (Join DOWNLOAD_PATH ''Youtube''),
       ExtractInfo ''https://www.youtube.com/watch?v=dQw4w9WgXcQ''
         (get_ydl_options ''youtube'' None (Some (Join DOWNLOAD_PATH ''Youtube''))),
       Sleep 1,
       UndetectedPlatform ''https://example.org/clip''] = [Skipped, Fetched, Delay 1, Skipped]"
    (is "run_batch sample_env sample_urls None [] = (?t, Inr 1) \<and> _")
proof -
  have run: "run_batch sample_env sample_urls None [] = (?t, Inr 1)"
    by code_simp
  from batch_pacing[of sample_env sample_urls None "[]" ?t 1] run
  have "\<exists>new. ?t = [] @ new \<and> pacing new = [Skipped, Fetched, Delay 1, Skipped]"
    by blast
  then have "pacing ?t = [Skipped, Fetched, Delay 1, Skipped]"
    by simp
  with run show ?thesis by blast
qed


text \<open>
  The claim without the restriction to URLs that reach the download step fails: in a
  batch of an invalid text followed by a YouTube URL, the first URL is not the last of
  the list, and no pause occurs at all.
\<close>

theorem batch_skip_no_delay_counterexample:
  "run_batch sample_env [''not a url'', ''https://youtu.be/dQw4w9WgXcQ''] None [] =
     ([InvalidUrl ''not a url'',
       CreateFolder (Join DOWNLOAD_PATH ''Youtube''),
       ExtractInfo ''https://youtu.be/dQw4w9WgXcQ''
         (get_ydl_options ''youtube'' None (Some (Join DOWNLOAD_PATH ''Youtube'')))],
      Inr 1)
   \<and> pacing (fst (run_batch sample_env [''not a url'', ''https://youtu.be/dQw4w9WgXcQ''] None []))
       = [Skipped, Fetched]"
  by code_simp

subsection \<open>Platform detection\<close>

lemma re_search_lit: "re_search (lit w) s = contains w s"
  by (induction s) (auto simp: lit_def)

lemma re_search_alt: "re_search (alt p q) s = (re_search p s \<or> re_search q s)"
  by (induction s) (auto simp: alt_def)

text \<open>
  C3, as the code has it. \<open>detect_platform\<close> searches the whole lower-cased URL, not
  its host alone. Each sample URL of a supported platform is classified as that
  platform, and the result is none exactly for the URLs in which none of the nine
  literals of the patterns occurs anywhere, in any case.
\<close>

theorem detect_platform_patterns:
  "detect_platform ''https://www.youtube.com/watch?v=dQw4w9WgXcQ'' = Some ''youtube''
   \<and> detect_platform ''https://youtu.be/dQw4w9WgXcQ'' = Some ''youtube''
   \<and> detect_platform ''https://www.instagram.com/p/CxYz_12-ab/'' = Some ''instagram''
   \<and> detect_platform ''https://www.tiktok.com/@user/video/7234567890123456789'' = Some ''tiktok''
   \<and> detect_platform ''https://twitter.com/user/status/1234567890'' = Some ''twitter''
   \<and> detect_platform ''https://x.com/user/status/1234567890'' = Some ''twitter''
   \<and> detect_platform ''https://www.facebook.com/watch/?v=1234567890'' = Some ''facebook''
   \<and> detect_platform ''https://www.reddit.com/r/videos/comments/abc123/title/'' = Some ''reddit''
   \<and> detect_platform ''https://www.twitch.tv/videos/1234567890'' = Some ''twitch''
   \<and> ((detect_platform url = None) =
        (\<forall>w \<in> set pattern_literals. \<not> contains w (py_lower url)))"
proof -
  have samples:
    "detect_platform ''https://www.youtube.com/watch?v=dQw4w9WgXcQ'' = Some ''youtube''
     \<and> detect_platform ''https://youtu.be/dQw4w9WgXcQ'' = Some ''youtube''
     \<and> detect_platform ''https://www.instagram.com/p/CxYz_12-ab/'' = Some ''instagram''
     \<and> detect_platform ''https://www.tiktok.com/@user/video/7234567890123456789'' = Some ''tiktok''
     \<and> detect_platform ''https://twitter.com/user/status/1234567890'' = Some ''twitter''
     \<and> detect_platform ''https://x.com/user/status/1234567890'' = Some ''twitter''
     \<and> detect_platform ''https://www.facebook.com/watch/?v=1234567890'' = Some ''facebook''
     \<and> detect_platform ''https://www.reddit.com/r/videos/comments/abc123/title/'' = Some ''reddit''
     \<and> detect_platform ''https://www.twitch.tv/videos/1234567890'' = Some ''twitch''"
    by code_simp
  have none: "(detect_platform url = None) =
      (\<forall>w \<in> set pattern_literals. \<not> contains w (py_lower url))"
    by (simp add: detect_platform_def domain_patterns_def pattern_literals_def
        re_search_alt re_search_lit)
  from samples none show ?thesis by blast
qed

theorem detect_platform_patterns_witness:
  "detect_platform ''https://vimeo.com/123456'' = None"
proof -
  have "\<forall>w \<in> set pattern_literals. \<not> contains w (py_lower ''https://vimeo.com/123456'')"
    by code_simp
  with detect_platform_patterns[of "''https://vimeo.com/123456''"] show ?thesis
    by blast
qed

text \<open>
  The claim as stated fails: a URL whose host is \<open>example.com\<close>, a host in which no
  pattern is found, is classified as YouTube because of its query; and the host
  \<open>www.netflix.com\<close> is classified as Twitter.
\<close>

theorem detect_platform_host_counterexample:
  "detect_platform ''https://example.com/?ref=youtube.com'' = Some ''youtube''
   \<and> map_sum id url_netloc (urlparse sample_lib ''https://example.com/?ref=youtube.com'')
       = Inr ''example.com''
   \<and> detect_platform ''example.com'' = None
   \<and> detect_platform ''https://www.netflix.com/'' = Some ''twitter''"
  by code_simp

subsection \<open>URL validation\<close>

lemma seq_nonempty: "seq p q s \<noteq> [] \<Longrightarrow> \<exists>r \<in> set (p s). q r \<noteq> []"
  by (auto simp: seq_def)

lemma char_matches_i_refl: "char_matches_i c c"
  by (simp add: char_matches_i_def)

lemma begins_append:
  assumes "begins_ignoring_case a s" and "begins_ignoring_case b (drop (length a) s)"
  shows "begins_ignoring_case (a @ b) s"
proof -
  have "take (length a + length b) s = take (length a) s @ take (length b) (drop (length a) s)"
    by (simp add: take_add)
  then show ?thesis
    using assms by (auto simp: begins_ignoring_case_def intro: list_all2_appendI)
qed

lemma lit_i_result:
  "r \<in> set (lit_i w s) \<Longrightarrow> begins_ignoring_case w s \<and> r = drop (length w) s"
  by (auto simp: lit_i_def split: if_splits)

lemma lit_begins: "lit w s \<noteq> [] \<Longrightarrow> begins_ignoring_case w s"
proof -
  assume "lit w s \<noteq> []"
  then have p: "prefix w s" by (auto simp: lit_def split: if_splits)
  then have "take (length w) s = w" by (auto simp: prefix_def)
  moreover have "list_all2 char_matches_i w w"
    by (simp add: list_all2_same char_matches_i_refl)
  moreover have "length w \<le> length s" using p by (rule prefix_length_le)
  ultimately show ?thesis by (simp add: begins_ignoring_case_def)
qed

lemma scheme_pat_begins:
  assumes "scheme_pat s \<noteq> []"
  shows "begins_ignoring_case (code_points ''http://'') s \<or>
         begins_ignoring_case (code_points ''https://'') s"
proof -
  let ?h = "code_points ''http''" and ?s = "code_points ''s''" and ?c = "code_points ''://''"
  from assms obtain r1 where r1: "r1 \<in> set (lit_i ?h s)"
    and q1: "seq (opt (lit_i ?s)) (lit ?c) r1 \<noteq> []"
    unfolding scheme_pat_def by (blast dest: seq_nonempty)
  from q1 obtain r2 where r2: "r2 \<in> set (opt (lit_i ?s) r1)" and q2: "lit ?c r2 \<noteq> []"
    by (blast dest: seq_nonempty)
  have b1: "begins_ignoring_case ?h s" and d1: "r1 = drop (length ?h) s"
    using lit_i_result[OF r1] by simp_all
  have b3: "begins_ignoring_case ?c r2" using q2 by (rule lit_begins)
  from r2 consider "r2 = r1" | "r2 \<in> set (lit_i ?s r1)" by (auto simp: opt_def)
  then show ?thesis
  proof cases
    case 1
    then have "begins_ignoring_case (?h @ ?c) s"
      using b1 b3 d1 by (auto intro: begins_append)
    then show ?thesis by (simp add: code_points_def)
  next
    case 2
    then have b2: "begins_ignoring_case ?s r1" and d2: "r2 = drop (length ?s) r1"
      using lit_i_result[OF 2] by simp_all
    have hs: "begins_ignoring_case (?h @ ?s) s"
      using b1 b2 d1 by (auto intro: begins_append)
    have "r2 = drop (length (?h @ ?s)) s"
      using d1 d2 by (simp add: add.commute)
    then have "begins_ignoring_case ?c (drop (length (?h @ ?s)) s)"
      using b3 by simp
    from begins_append[OF hs this]
    have "begins_ignoring_case ((?h @ ?s) @ ?c) s" .
    then show ?thesis by (simp add: code_points_def)
  qed
qed

text \<open>
  What the comparison under \<open>re.IGNORECASE\<close> accepts for the letters of the scheme:
  the letter in either case, and for \<open>s\<close> also the long s U+017F.
\<close>

lemma scheme_letters_ignoring_case:
  "char_matches_i 0x68 c = (c \<in> {0x48, 0x68})"
  "char_matches_i 0x74 c = (c \<in> {0x54, 0x74})"
  "char_matches_i 0x70 c = (c \<in> {0x50, 0x70})"
  "char_matches_i 0x73 c = (c \<in> {0x53, 0x73, 0x17F})"
  "char_matches_i 0x3A c = (c = 0x3A)"
  "char_matches_i 0x2F c = (c = 0x2F)"
  by (auto simp: char_matches_i_def sre_lower_def ignorecase_fixes_def split: if_splits)

text \<open>
  C8, as the code has it. A text that does not begin with \<open>http://\<close> or
  \<open>https://\<close>, the letters compared as \<open>re.IGNORECASE\<close> compares them, is not a
  valid URL.
\<close>

theorem is_valid_url_needs_scheme:
  "\<not> (begins_ignoring_case (code_points ''http://'') s \<or>
       begins_ignoring_case (code_points ''https://'') s) \<Longrightarrow>
   \<not> is_valid_url s"
proof
  assume n: "\<not> (begins_ignoring_case (code_points ''http://'') s \<or>
       begins_ignoring_case (code_points ''https://'') s)"
  assume "is_valid_url s"
  then have "seq scheme_pat (seq host_pat (seq port_pat (seq tail_pat eos))) s \<noteq> []"
    by (simp add: is_valid_url_def re_match_def url_pattern_def)
  then have "scheme_pat s \<noteq> []" by (auto simp: seq_def)
  from scheme_pat_begins[OF this] n show False by blast
qed

theorem is_valid_url_needs_scheme_witness:
  "\<not> is_valid_url (code_points ''www.youtube.com/watch?v=dQw4w9WgXcQ'')"
proof -
  have "\<not> (begins_ignoring_case (code_points ''http://'')
           (code_points ''www.youtube.com/watch?v=dQw4w9WgXcQ'') \<or>
       begins_ignoring_case (code_points ''https://'')
           (code_points ''www.youtube.com/watch?v=dQw4w9WgXcQ''))"
    by code_simp
  then show ?thesis by (rule is_valid_url_needs_scheme)
qed

text \<open>
  The claim as stated fails: \<open>HTTP://EXAMPLE.COM/\<close> is valid and begins with neither
  \<open>http://\<close> nor \<open>https://\<close>, and so is \<open>http\<close> followed by the long s U+017F and
  \<open>://example.com/\<close>.
\<close>

theorem is_valid_url_scheme_counterexample:
  "is_valid_url (code_points ''HTTP://EXAMPLE.COM/'')
   \<and> \<not> prefix (code_points ''http://'') (code_points ''HTTP://EXAMPLE.COM/'')
   \<and> \<not> prefix (code_points ''https://'') (code_points ''HTTP://EXAMPLE.COM/'')
   \<and> is_valid_url (code_points ''http'' @ [0x17F] @ code_points ''://example.com/'')
   \<and> \<not> prefix (code_points ''http://'')
         (code_points ''http'' @ [0x17F] @ code_points ''://example.com/'')
   \<and> \<not> prefix (code_points ''https://'')
         (code_points ''http'' @ [0x17F] @ code_points ''://example.com/'')"
  by code_simp

subsection \<open>Native identifiers\<close>


lemma id_char_cases:
  "is_id_char c \<Longrightarrow> c \<in> set (ascii_uppercase @ ascii_lowercase @ digits @ ''_-'')"
  by (auto simp: is_id_char_def is_alnum_def is_alpha_def is_digit_def)

lemma is_id_char_safe:
  "is_id_char c \<Longrightarrow>
     c \<notin> set ''#?;&+%=[]/.:'' \<and> c \<notin> set unsafe_url_bytes_to_remove"
  by (drule id_char_cases)
     (auto simp: ascii_uppercase_def ascii_lowercase_def digits_def unsafe_url_bytes_to_remove_def)

lemma is_digit_id_char: "is_digit c \<Longrightarrow> is_id_char c"
  by (simp add: is_id_char_def is_alnum_def)

lemma contains_set: "contains w s \<Longrightarrow> set w \<subseteq> set s"
proof (induction s)
  case Nil
  then show ?case by simp
next
  case (Cons a s)
  from Cons.prems have "prefix w (a # s) \<or> contains w s" by simp
  then show ?case
  proof
    assume "prefix w (a # s)"
    then show ?thesis by (rule set_mono_prefix)
  next
    assume "contains w s"
    then show ?thesis using Cons.IH by auto
  qed
qed

lemma split_on_absent: "sep \<notin> set s \<Longrightarrow> split_on sep s = [s]"
  by (induction s) auto

lemma py_lower_https: "py_lower ''https'' = ''https''"
  by code_simp

lemma split_scheme_https: "split_scheme (''https:'' @ rest) = (''https'', rest)"
  by (simp add: split_scheme_def is_alpha_def scheme_chars_def ascii_uppercase_def
      ascii_lowercase_def digits_def py_lower_https)

lemma takeWhile_pass: "\<forall>x \<in> set xs. P x \<Longrightarrow> takeWhile P (xs @ ys) = xs @ takeWhile P ys"
  by (induction xs) auto

lemma dropWhile_pass: "\<forall>x \<in> set xs. P x \<Longrightarrow> dropWhile P (xs @ ys) = dropWhile P ys"
  by (induction xs) auto

lemma splitnetloc_host:
  assumes "\<forall>c \<in> set host. c \<notin> set ''/?#''"
  shows "splitnetloc (''//'' @ host @ ''/'' @ rest) = (host, ''/'' @ rest)"
  using assms by (simp add: splitnetloc_def Let_def takeWhile_pass dropWhile_pass)

lemma urlsplit_https:
  assumes host: "\<forall>c \<in> set host. c \<notin> set ''/?#[]''"
    and safe: "\<forall>c \<in> set (host @ rest). c \<notin> set unsafe_url_bytes_to_remove"
  shows "urlsplit pl (''https://'' @ host @ ''/'' @ rest) =
     Inr \<lparr>url_scheme = ''https'', url_netloc = host,
          url_path = fst (split_first (CHR ''?'') (fst (split_first (CHR ''#'') (''/'' @ rest)))),
          url_params = '''',
          url_query = snd (split_first (CHR ''?'') (fst (split_first (CHR ''#'') (''/'' @ rest)))),
          url_fragment = snd (split_first (CHR ''#'') (''/'' @ rest))\<rparr>"
proof -
  define u where "u = ''https://'' @ host @ ''/'' @ rest"
  define v where "v = ''//'' @ host @ ''/'' @ rest"
  define w where "w = ''/'' @ rest"
  have u1: "dropWhile (\<lambda>c. c \<in> set c0_control_or_space) u = u"
    by (simp add: u_def c0_control_or_space_def)
  have fh: "filter (\<lambda>c. c \<notin> set unsafe_url_bytes_to_remove) host = host"
    using safe by (auto simp: filter_id_conv)
  have fr: "filter (\<lambda>c. c \<notin> set unsafe_url_bytes_to_remove) rest = rest"
    using safe by (auto simp: filter_id_conv)
  have fa: "filter (\<lambda>c. c \<notin> set unsafe_url_bytes_to_remove) ''https://'' = ''https://''"
    by (simp add: unsafe_url_bytes_to_remove_def)
  have fb: "filter (\<lambda>c. c \<notin> set unsafe_url_bytes_to_remove) ''/'' = ''/''"
    by (simp add: unsafe_url_bytes_to_remove_def)
  have u2: "filter (\<lambda>c. c \<notin> set unsafe_url_bytes_to_remove) u = u"
    unfolding u_def by (simp only: filter_append fh fr fa fb)
  have "u = ''https:'' @ v" by (simp add: u_def v_def)
  then have u3: "split_scheme u = (''https'', v)" by (simp only: split_scheme_https)
  have v2: "take 2 v = ''//''" by (simp add: v_def)
  have "\<forall>c \<in> set host. c \<notin> set ''/?#''" using host by auto
  then have u4: "splitnetloc v = (host, w)"
    unfolding v_def w_def by (rule splitnetloc_host)
  have br: "CHR ''['' \<notin> set host" "CHR '']'' \<notin> set host" using host by auto
  have "urlsplit pl u =
     Inr \<lparr>url_scheme = ''https'', url_netloc = host,
          url_path = fst (split_first (CHR ''?'') (fst (split_first (CHR ''#'') w))),
          url_params = '''',
          url_query = snd (split_first (CHR ''?'') (fst (split_first (CHR ''#'') w))),
          url_fragment = snd (split_first (CHR ''#'') w)\<rparr>"
    unfolding urlsplit_def
    by (simp only: u1 u2 u3 v2 u4 br Let_def split_conv if_True if_False simp_thms
        fst_conv snd_conv prod.case_eq_if)
  then show ?thesis unfolding u_def w_def .
qed

lemma urlparse_https_ok:
  assumes host: "\<forall>c \<in> set host. c \<notin> set ''/?#[]''"
    and safe: "\<forall>c \<in> set (host @ rest). c \<notin> set unsafe_url_bytes_to_remove"
  shows "\<exists>r. urlparse pl (''https://'' @ host @ ''/'' @ rest) = Inr r"
  unfolding urlparse_def urlsplit_https[OF assms] by simp

lemma contains_prefix: "prefix w s \<Longrightarrow> contains w s"
  by (cases s) auto

lemma contains_mid: "contains w (a @ w @ b)"
  by (induction a) (auto intro: contains_prefix)

lemma ids_safe:
  assumes "\<forall>c \<in> set s. is_id_char c"
  shows "\<forall>c \<in> set s. c \<notin> set unsafe_url_bytes_to_remove"
    and "\<forall>c \<in> set s. c \<notin> set ''#?;&+%=[]/.:''"
  using assms is_id_char_safe by blast+

lemma ids_takeWhile:
  assumes "\<forall>c \<in> set s. is_id_char c" and "x \<in> set ''#?;&+%=[]/.:''"
  shows "takeWhile (\<lambda>c. c \<noteq> x) s = s" and "dropWhile (\<lambda>c. c \<noteq> x) s = []"
  using ids_safe(2)[OF assms(1)] assms(2)
  by (auto simp: takeWhile_eq_all_conv dropWhile_eq_Nil_conv)

lemma youtube_short_round_trip:
  assumes "well_formed_id vid"
  shows "extract_video_id pl (youtube_short_url vid) ''youtube'' = Some vid"
proof -
  from assms have ids: "\<forall>c \<in> set vid. is_id_char c" by (simp add: well_formed_id_def)
  have host: "\<forall>c \<in> set ''youtu.be''. c \<notin> set ''/?#[]''" by simp
  have safe: "\<forall>c \<in> set (''youtu.be'' @ vid). c \<notin> set unsafe_url_bytes_to_remove"
    using ids_safe(1)[OF ids] by (simp add: unsafe_url_bytes_to_remove_def)
  have h: "takeWhile (\<lambda>c. c \<noteq> CHR ''#'') vid = vid" "dropWhile (\<lambda>c. c \<noteq> CHR ''#'') vid = []"
    by (rule ids_takeWhile[OF ids], simp)+
  have q: "takeWhile (\<lambda>c. c \<noteq> CHR ''?'') vid = vid" "dropWhile (\<lambda>c. c \<noteq> CHR ''?'') vid = []"
    by (rule ids_takeWhile[OF ids], simp)+
  have semi: "CHR '';'' \<notin> set vid" using ids_safe(2)[OF ids] by auto
  have sp: "urlsplit pl (''https://'' @ ''youtu.be'' @ ''/'' @ vid) =
      Inr \<lparr>url_scheme = ''https'', url_netloc = ''youtu.be'', url_path = ''/'' @ vid,
           url_params = '''', url_query = '''', url_fragment = ''''\<rparr>"
    unfolding urlsplit_https[OF host safe] by (simp add: split_first_def h q)
  have pr: "urlparse pl (''https://'' @ ''youtu.be'' @ ''/'' @ vid) =
      Inr \<lparr>url_scheme = ''https'', url_netloc = ''youtu.be'', url_path = ''/'' @ vid,
           url_params = '''', url_query = '''', url_fragment = ''''\<rparr>"
    unfolding urlparse_def sp using semi by simp
  have c: "contains ''youtu.be'' (''https://'' @ ''youtu.be'' @ ''/'' @ vid)"
    by (rule contains_mid)
  have u: "youtube_short_url vid = ''https://'' @ ''youtu.be'' @ ''/'' @ vid"
    by (simp add: youtube_short_url_def)
  show ?thesis
    unfolding extract_video_id_def u pr using c by simp
qed

lemma not_contains_dot:
  assumes "\<forall>c \<in> set s. is_id_char c"
  shows "\<not> contains ''youtu.be'' s"
proof
  assume "contains ''youtu.be'' s"
  then have "set ''youtu.be'' \<subseteq> set s" by (rule contains_set)
  then have "CHR ''.'' \<in> set s" by auto
  then show False using ids_safe(2)[OF assms] by auto
qed

lemma watch_no_short:
  assumes "\<forall>c \<in> set vid. is_id_char c"
  shows "\<not> contains ''youtu.be'' (''https://www.youtube.com/watch?v='' @ vid)"
  using not_contains_dot[OF assms] by simp

lemma youtube_watch_round_trip:
  assumes "well_formed_id vid"
  shows "extract_video_id pl (youtube_watch_url vid) ''youtube'' = Some vid"
proof -
  from assms have ids: "\<forall>c \<in> set vid. is_id_char c" and ne: "vid \<noteq> []"
    by (simp_all add: well_formed_id_def)
  have host: "\<forall>c \<in> set ''www.youtube.com''. c \<notin> set ''/?#[]''" by simp
  have safe: "\<forall>c \<in> set (''www.youtube.com'' @ ''watch?v='' @ vid).
      c \<notin> set unsafe_url_bytes_to_remove"
    using ids_safe(1)[OF ids] by (simp add: unsafe_url_bytes_to_remove_def)
  have h: "takeWhile (\<lambda>c. c \<noteq> CHR ''#'') vid = vid" "dropWhile (\<lambda>c. c \<noteq> CHR ''#'') vid = []"
    by (rule ids_takeWhile[OF ids], simp)+
  have sp: "urlsplit pl (''https://'' @ ''www.youtube.com'' @ ''/'' @ ''watch?v='' @ vid) =
      Inr \<lparr>url_scheme = ''https'', url_netloc = ''www.youtube.com'', url_path = ''/watch'',
           url_params = '''', url_query = ''v='' @ vid, url_fragment = ''''\<rparr>"
    unfolding urlsplit_https[OF host safe] by (simp add: split_first_def h)
  have pr: "urlparse pl (''https://'' @ ''www.youtube.com'' @ ''/'' @ ''watch?v='' @ vid) =
      Inr \<lparr>url_scheme = ''https'', url_netloc = ''www.youtube.com'', url_path = ''/watch'',
           url_params = '''', url_query = ''v='' @ vid, url_fragment = ''''\<rparr>"
    unfolding urlparse_def sp by simp
  have amp: "CHR ''&'' \<notin> set (''v='' @ vid)" using ids_safe(2)[OF ids] by auto
  have plus: "map (\<lambda>c. if c = CHR ''+'' then CHR '' '' else c) vid = vid"
    using ids_safe(2)[OF ids] by (auto simp: map_idI)
  have pct: "CHR ''%'' \<notin> set vid" using ids_safe(2)[OF ids] by auto
  have uq: "unquote_plus pl vid = vid" "unquote_plus pl ''v'' = ''v''"
    using pct by (simp_all add: unquote_plus_def plus)
  have qs: "parse_qs pl (''v='' @ vid) ''v'' = [vid]"
    unfolding parse_qs_def parse_qsl_def split_on_absent[OF amp]
    using ne by (simp add: split_first_def uq)
  have c1: "\<not> contains ''youtu.be'' (''https://'' @ ''www.youtube.com'' @ ''/'' @ ''watch?v='' @ vid)"
    using watch_no_short[OF ids] by simp
  have c2: "contains ''youtube.com'' (''https://www.'' @ ''youtube.com'' @ ''/watch?v='' @ vid)"
    by (rule contains_mid)
  then have c2': "contains ''youtube.com''
      (''https://'' @ ''www.youtube.com'' @ ''/'' @ ''watch?v='' @ vid)" by simp
  have u: "youtube_watch_url vid = ''https://'' @ ''www.youtube.com'' @ ''/'' @ ''watch?v='' @ vid"
    by (simp add: youtube_watch_url_def)
  show ?thesis
    unfolding extract_video_id_def u pr using c1 c2' qs by simp
qed

lemma not_id_slash: "\<not> is_id_char (CHR ''/'')"
  by code_simp

lemma instagram_round_trip:
  assumes "well_formed_id code"
  shows "extract_video_id pl (instagram_post_url code) ''instagram'' = Some code"
proof -
  from assms have ids: "\<forall>c \<in> set code. is_id_char c" and ne: "code \<noteq> []"
    by (simp_all add: well_formed_id_def)
  have host: "\<forall>c \<in> set ''www.instagram.com''. c \<notin> set ''/?#[]''" by simp
  have safe: "\<forall>c \<in> set (''www.instagram.com'' @ ''p/'' @ code @ ''/'').
      c \<notin> set unsafe_url_bytes_to_remove"
    using ids_safe(1)[OF ids] by (simp add: unsafe_url_bytes_to_remove_def)
  obtain r where pr: "urlparse pl (''https://'' @ ''www.instagram.com'' @ ''/'' @ ''p/'' @ code @ ''/'')
      = Inr r"
    using urlparse_https_ok[OF host safe] by blast
  have tw: "takeWhile is_id_char (code @ ''/'') = code"
    using ids by (simp add: takeWhile_pass not_id_slash)
  have sg: "search_group instagram_pre is_id_char (''https://www.instagram.com/p/'' @ code @ ''/'')
      = Some code"
    using ne tw by (simp add: capture_at_def instagram_pre_def seq_def alt_def lit_def)
  have u: "instagram_post_url code = ''https://'' @ ''www.instagram.com'' @ ''/'' @ ''p/'' @ code @ ''/''"
    by (simp add: instagram_post_url_def)
  show ?thesis
    unfolding extract_video_id_def u pr using sg by simp
qed

lemma extract_tiktok:
  "urlparse pl url = Inr r \<Longrightarrow>
   extract_video_id pl url ''tiktok'' = search_group (lit ''/video/'') is_digit url"
  by (simp add: extract_video_id_def)

lemma extract_twitter:
  "urlparse pl url = Inr r \<Longrightarrow>
   extract_video_id pl url ''twitter'' = search_group (lit ''/status/'') is_digit url"
  by (simp add: extract_video_id_def)

lemma number_safe:
  assumes "well_formed_number n"
  shows "\<forall>c \<in> set n. c \<notin> set unsafe_url_bytes_to_remove"
proof -
  from assms have "\<forall>c \<in> set n. is_id_char c"
    by (simp add: well_formed_number_def is_digit_id_char)
  then show ?thesis by (rule ids_safe(1))
qed

lemma tiktok_round_trip:
  assumes "well_formed_number n"
  shows "extract_video_id pl (tiktok_video_url n) ''tiktok'' = Some n"
proof -
  from assms have ds: "\<forall>c \<in> set n. is_digit c" and ne: "n \<noteq> []"
    by (simp_all add: well_formed_number_def)
  have tw: "takeWhile is_digit n = n" using ds by (simp add: takeWhile_eq_all_conv)
  have sg: "search_group (lit ''/video/'') is_digit (''https://www.tiktok.com/@user/video/'' @ n)
      = Some n"
    using ne by (simp add: capture_at_def lit_def tw)
  have host: "\<forall>c \<in> set ''www.tiktok.com''. c \<notin> set ''/?#[]''" by simp
  have safe: "\<forall>c \<in> set (''www.tiktok.com'' @ ''@user/video/'' @ n).
      c \<notin> set unsafe_url_bytes_to_remove"
    using number_safe[OF assms] by (simp add: unsafe_url_bytes_to_remove_def)
  have u: "tiktok_video_url n = ''https://'' @ ''www.tiktok.com'' @ ''/'' @ ''@user/video/'' @ n"
    by (simp add: tiktok_video_url_def)
  obtain r where pr: "urlparse pl (tiktok_video_url n) = Inr r"
    unfolding u using urlparse_https_ok[OF host safe] by blast
  show ?thesis
    unfolding extract_tiktok[OF pr] using sg by (simp add: tiktok_video_url_def)
qed

lemma twitter_round_trip:
  assumes "well_formed_number n"
  shows "extract_video_id pl (twitter_status_url n) ''twitter'' = Some n"
proof -
  from assms have ds: "\<forall>c \<in> set n. is_digit c" and ne: "n \<noteq> []"
    by (simp_all add: well_formed_number_def)
  have tw: "takeWhile is_digit n = n" using ds by (simp add: takeWhile_eq_all_conv)
  have sg: "search_group (lit ''/status/'') is_digit (''https://twitter.com/user/status/'' @ n)
      = Some n"
    using ne by (simp add: capture_at_def lit_def tw)
  have host: "\<forall>c \<in> set ''twitter.com''. c \<notin> set ''/?#[]''" by simp
  have safe: "\<forall>c \<in> set (''twitter.com'' @ ''user/status/'' @ n).
      c \<notin> set unsafe_url_bytes_to_remove"
    using number_safe[OF assms] by (simp add: unsafe_url_bytes_to_remove_def)
  have u: "twitter_status_url n = ''https://'' @ ''twitter.com'' @ ''/'' @ ''user/status/'' @ n"
    by (simp add: twitter_status_url_def)
  obtain r where pr: "urlparse pl (twitter_status_url n) = Inr r"
    unfolding u using urlparse_https_ok[OF host safe] by blast
  show ?thesis
    unfolding extract_twitter[OF pr] using sg by (simp add: twitter_status_url_def)
qed

text \<open>
  C9. \<open>extract_video_id\<close> gives back the identifier from which a canonical URL was
  built, whatever the library parameters: for a well-formed identifier on YouTube, in
  the short form and in the watch form, and on Instagram; for a well-formed number on
  TikTok and on Twitter.
\<close>

theorem extract_video_id_round_trip:
  "(well_formed_id vid \<longrightarrow>
      extract_video_id pl (youtube_short_url vid) ''youtube'' = Some vid \<and>
      extract_video_id pl (youtube_watch_url vid) ''youtube'' = Some vid \<and>
      extract_video_id pl (instagram_post_url vid) ''instagram'' = Some vid)
   \<and> (well_formed_number n \<longrightarrow>
      extract_video_id pl (tiktok_video_url n) ''tiktok'' = Some n \<and>
      extract_video_id pl (twitter_status_url n) ''twitter'' = Some n)"
  using youtube_short_round_trip youtube_watch_round_trip instagram_round_trip
    tiktok_round_trip twitter_round_trip by blast

theorem extract_video_id_round_trip_witness:
  "extract_video_id sample_lib ''https://youtu.be/dQw4w9WgXcQ'' ''youtube'' = Some ''dQw4w9WgXcQ''
   \<and> extract_video_id sample_lib ''https://www.youtube.com/watch?v=dQw4w9WgXcQ'' ''youtube''
       = Some ''dQw4w9WgXcQ''
   \<and> extract_video_id sample_lib ''https://www.instagram.com/p/CxYz_12-ab/'' ''instagram''
       = Some ''CxYz_12-ab''
   \<and> extract_video_id sample_lib ''https://www.tiktok.com/@user/video/7234567890123456789''
       ''tiktok'' = Some ''7234567890123456789''
   \<and> extract_video_id sample_lib ''https://twitter.com/user/status/1234567890'' ''twitter''
       = Some ''1234567890''"
proof -
  have a: "well_formed_id ''dQw4w9WgXcQ''" and b: "well_formed_id ''CxYz_12-ab''"
    and c: "well_formed_number ''7234567890123456789''"
    and d: "well_formed_number ''1234567890''"
    by code_simp+
  show ?thesis
    using extract_video_id_round_trip[of "''dQw4w9WgXcQ''" sample_lib "''7234567890123456789''"]
      extract_video_id_round_trip[of "''CxYz_12-ab''" sample_lib "''1234567890''"]
      a b c d
    by (simp add: youtube_short_url_def youtube_watch_url_def instagram_post_url_def
        tiktok_video_url_def twitter_status_url_def)
qed

end
